(* ===== verification/Prelude.thy ===== *)
theory Prelude
  imports Complex_Main "HOL-Library.Word"
begin

text \<open>
  Shared vocabulary of the development: the machine types of the audio path
  (16-bit signed samples and bytes as words), the Python string type, the
  collections of facts the component theories feed, and the list lemmas on
  fixed-size blocks that the queue, the chunk assembler and the WAV encoder
  all use.
\<close>

section \<open>Types of the model\<close>

text \<open>
  A sample of the capture stream is a numpy \<open>int16\<close>: a 16-bit word read as
  two's complement by \<^const>\<open>sint\<close>. A byte of the WAV container is an
  \<^typ>\<open>8 word\<close>. A block is the frame array one driver callback delivers
  (mono, so one sample per frame). A Python \<open>str\<close> is a \<^typ>\<open>string\<close>
  whose characters are the UTF-8 bytes of the text.
\<close>

type_synonym int16 = "16 word"
type_synonym byte = "8 word"
type_synonym block = "int16 list"
type_synonym pystr = string

text \<open>
  The exceptions the program can raise on the paths the model follows, as
  values: \<open>ZeroDivisionError\<close> and \<open>ValueError\<close> of the resampling
  arithmetic, \<open>StructError\<close> of the WAV header packing,
  \<open>PortAudioError\<close> of a device query, \<open>AttributeError\<close> of the overlay
  window's drag handler, \<open>JSONDecodeError\<close> of reading the configuration,
  \<open>TypeError\<close> of arithmetic on an unset sample rate, \<open>OpenAIError\<close> of
  creating the API client without a key.
\<close>

datatype py_error =
    ZeroDivisionError
  | ValueError
  | StructError
  | PortAudioError
  | AttributeError
  | JSONDecodeError
  | TypeError
  | OpenAIError

text \<open>
  Python's \<open>int(x)\<close> on a float, and numpy's float-to-integer cast,
  truncate towards zero.
\<close>

definition py_trunc :: "real \<Rightarrow> int" where
  "py_trunc x = (if 0 \<le> x then \<lfloor>x\<rfloor> else \<lceil>x\<rceil>)"

named_theorems model_simps \<open>equations that evaluate the model's operations\<close>
named_theorems inv_intros \<open>one-step preservation facts of the state invariants\<close>

section \<open>Lists of fixed-size blocks\<close>

definition uniform :: "nat \<Rightarrow> 'a list list \<Rightarrow> bool" where
  "uniform n xss \<longleftrightarrow> (\<forall>xs \<in> set xss. length xs = n)"

lemma uniform_Nil [simp]: "uniform n []"
  by (simp add: uniform_def)

lemma uniform_Cons [simp]: "uniform n (xs # xss) \<longleftrightarrow> length xs = n \<and> uniform n xss"
  by (simp add: uniform_def)

lemma uniform_append [simp]: "uniform n (xss @ yss) \<longleftrightarrow> uniform n xss \<and> uniform n yss"
  by (auto simp: uniform_def)

lemma uniform_take [intro]: "uniform n xss \<Longrightarrow> uniform n (take k xss)"
  by (auto simp: uniform_def dest: in_set_takeD)

lemma uniform_drop [intro]: "uniform n xss \<Longrightarrow> uniform n (drop k xss)"
  by (auto simp: uniform_def dest: in_set_dropD)

lemma length_concat_uniform [simp]:
  "uniform n xss \<Longrightarrow> length (concat xss) = length xss * n"
  by (induction xss) auto

lemma take_drop_append_eq:
  "k \<le> length xs \<Longrightarrow> take k (xs @ ys) = take k xs \<and> drop k (xs @ ys) = drop k xs @ ys"
  by simp

lemma concat_take_drop: "concat (take k xss) @ concat (drop k xss) = concat xss"
  by (metis append_take_drop_id concat_append)

end
