(* ===== verification/AudioBuffer.thy ===== *)
theory AudioBuffer
  imports Prelude
begin

text \<open>
  The producer/consumer buffer between the audio callback and the
  transcription loop: the module-level \<open>audio_q = queue.Queue()\<close> of
  \<open>src/live_transcribe.py\<close>. The queue is unbounded, so \<open>put\<close> never blocks;
  \<open>get\<close> blocks while the queue is empty, which the model writes as
  \<^const>\<open>None\<close> ("no value yet"). The consumer takes a window with the list
  comprehension \<open>[audio_q.get() for _ in range(20)]\<close>, modelled by
  \<open>get_n\<close>, and proved equal to the \<open>popExactly\<close> contract of the
  specification.
\<close>

section \<open>The queue and its two operations\<close>

text \<open>The contents of a \<open>queue.Queue\<close>, oldest element first.\<close>

type_synonym 'a pyqueue = "'a list"

definition q_put :: "'a \<Rightarrow> 'a pyqueue \<Rightarrow> 'a pyqueue" where
  "q_put x q = q @ [x]"

definition q_get :: "'a pyqueue \<Rightarrow> ('a \<times> 'a pyqueue) option" where
  "q_get q = (case q of [] \<Rightarrow> None | x # xs \<Rightarrow> Some (x, xs))"

text \<open>
  \<open>audio_callback(indata, frames, time, status)\<close> puts a copy of the
  delivered block on the queue; the copy makes the block a value, which it
  is in HOL already. The warning it prints when \<open>status\<close> is set is console
  output only.
\<close>

definition audio_callback :: "block \<Rightarrow> block pyqueue \<Rightarrow> block pyqueue" where
  "audio_callback indata q = q_put (indata) q"

text \<open>\<open>n\<close> successive \<open>get\<close> calls, as the list comprehension makes them.\<close>

fun get_n :: "nat \<Rightarrow> 'a pyqueue \<Rightarrow> ('a list \<times> 'a pyqueue) option" where
  "get_n 0 q = Some ([], q)"
| "get_n (Suc n) q =
     (case q_get q of
        None \<Rightarrow> None
      | Some (x, q') \<Rightarrow>
          (case get_n n q' of
             None \<Rightarrow> None
           | Some (xs, q'') \<Rightarrow> Some (x # xs, q'')))"

text \<open>
  The contract of \<open>popExactly(n)\<close> in the specification (section 4.1):
  the first \<open>n\<close> blocks in arrival order and the rest of the queue, or no
  answer yet while fewer than \<open>n\<close> blocks are queued.
\<close>

definition pop_exactly :: "nat \<Rightarrow> 'a pyqueue \<Rightarrow> ('a list \<times> 'a pyqueue) option" where
  "pop_exactly n q = (if n \<le> length q then Some (take n q, drop n q) else None)"

section \<open>Facts about the queue operations\<close>

lemma q_get_Cons [simp, model_simps]: "q_get (x # xs) = Some (x, xs)"
  by (simp add: q_get_def)

lemma q_get_Nil [simp, model_simps]: "q_get [] = None"
  by (simp add: q_get_def)

lemma q_get_put_nonempty:
  "q \<noteq> [] \<Longrightarrow> q_get (q_put x q) = map_option (\<lambda>(y, r). (y, q_put x r)) (q_get q)"
  by (cases q) (simp_all add: q_put_def)

lemma q_get_put_empty [simp]: "q_get (q_put x []) = Some (x, [])"
  by (simp add: q_put_def)

lemma length_q_put [simp]: "length (q_put x q) = Suc (length q)"
  by (simp add: q_put_def)

lemma fold_q_put [simp]: "fold q_put xs q = q @ xs"
  by (induction xs arbitrary: q) (simp_all add: q_put_def)

lemma get_n_take_drop:
  "get_n n q = (if n \<le> length q then Some (take n q, drop n q) else None)"
proof (induction n arbitrary: q)
  case 0
  then show ?case by simp
next
  case (Suc n)
  show ?case
    by (cases q) (simp_all add: Suc.IH)
qed

section \<open>The window read refines popExactly\<close>

text \<open>
  C2: twenty successive blocking \<open>get\<close> calls on an undisturbed queue do
  what the specification's \<open>popExactly\<close> promises, for every window size:
  the first \<open>n\<close> blocks in arrival order and the remaining queue, or
  blocking while fewer than \<open>n\<close> blocks are queued.
\<close>

theorem get_n_refines_pop_exactly: "get_n n q = pop_exactly n q"
  by (simp add: get_n_take_drop pop_exactly_def)

text \<open>
  C3: FIFO. After the callback has put the blocks \<open>xs\<close> on an empty queue,
  taking \<open>k \<le> length xs\<close> of them returns the first \<open>k\<close> blocks in push
  order and leaves the other \<open>length xs - k\<close> queued.
\<close>

theorem fifo_window:
  assumes "k \<le> length xs"
  shows "get_n k (fold audio_callback xs []) = Some (take k xs, drop k xs)
         \<and> length (drop k xs) = length xs - k"
proof -
  have "fold audio_callback xs [] = xs"
    by (simp add: audio_callback_def [abs_def])
  with assms show ?thesis
    by (simp add: get_n_take_drop)
qed

theorem fifo_window_witness:
  "get_n 2 (fold audio_callback [[1], [2], [3 :: int16]] [])
     = Some ([[1], [2]], [[3]])
   \<and> length (drop 2 [[1], [2], [3 :: int16]]) = 1"
  using fifo_window [of 2 "[[1], [2], [3 :: int16]]"] by simp

end
