(* ===== verification/Resample.thy ===== *)
theory Resample
  imports Prelude
begin

text \<open>
  The sample-rate converter, \<open>resample_audio\<close> of \<open>src/live_transcribe.py\<close>
  (lines 115-117): the output length is Python's \<open>round\<close> of
  \<open>len(audio_data) * target_sr / orig_sr\<close>, the samples come from
  \<open>scipy.signal.resample\<close>, and \<open>.astype(np.int16)\<close> casts them back to
  16-bit words. The Fourier resampler is a library the program only calls: it
  is a parameter of the model, of type \<open>resampler\<close>, and the one fact the
  program relies on, that it returns exactly the requested number of samples,
  is the predicate \<open>resampler_ok\<close>.
\<close>

section \<open>Python's round of a quotient\<close>

text \<open>
  \<open>round(x)\<close> on a float rounds to the nearest integer and a tie to the even
  one. Both operands of the quotient are integers far below \<open>2^53\<close>, so the
  float quotient is the correctly rounded rational and no rounding of the
  division moves it across a half-integer: the distance of \<open>a/b\<close> from a
  half-integer that it is not equal to is at least \<open>1/(2b)\<close>, many orders of
  magnitude above the spacing of doubles at these magnitudes. The model
  therefore rounds the exact quotient \<open>a / b\<close> for \<open>b > 0\<close>.
\<close>

definition py_round_div :: "int \<Rightarrow> int \<Rightarrow> int" where
  "py_round_div a b =
     (let q = a div b; r = a mod b in
      if 2 * r < b then q
      else if b < 2 * r then q + 1
      else if even q then q else q + 1)"

section \<open>The int16 cast\<close>

text \<open>
  numpy's float-to-integer cast truncates towards zero (\<^const>\<open>py_trunc\<close>);
  numpy's \<open>astype(np.int16)\<close> on a float outside the int16 range does not
  saturate: on the platforms the program targets it converts to a 32-bit
  integer and keeps the low 16 bits, i.e. it wraps modulo \<open>2^16\<close>
  (\<^const>\<open>word_of_int\<close>), for every value below \<open>2^31\<close> in magnitude,
  which covers every output of the resampler on int16 input.
\<close>

definition astype_int16 :: "real \<Rightarrow> int16" where
  "astype_int16 x = word_of_int (py_trunc x)"

section \<open>resample_audio\<close>

type_synonym resampler = "int list \<Rightarrow> nat \<Rightarrow> real list"

definition resampler_ok :: "resampler \<Rightarrow> bool" where
  "resampler_ok rs \<longleftrightarrow> (\<forall>xs n. length (rs xs n) = n)"

text \<open>
  The division raises \<open>ZeroDivisionError\<close> for \<open>orig_sr = 0\<close>; a negative
  length makes scipy's allocation raise \<open>ValueError\<close>. The sign of the
  denominator is moved to the numerator so that \<open>py_round_div\<close> sees a
  positive one.
\<close>

definition num_samples :: "nat \<Rightarrow> int \<Rightarrow> int \<Rightarrow> int" where
  "num_samples len orig_sr target_sr =
     py_round_div (int len * target_sr * sgn orig_sr) \<bar>orig_sr\<bar>"

definition resample_audio ::
  "resampler \<Rightarrow> int16 list \<Rightarrow> int \<Rightarrow> int \<Rightarrow> py_error + int16 list" where
  "resample_audio rs audio_data orig_sr target_sr =
     (if orig_sr = 0 then Inl ZeroDivisionError
      else
        let n = num_samples (length audio_data) orig_sr target_sr in
        if n < 0 then Inl ValueError
        else Inr (map astype_int16 (rs (map sint audio_data) (nat n))))"

section \<open>Rounding\<close>

lemma py_round_div_cases:
  assumes "0 < b"
  shows "\<bar>2 * (a - b * py_round_div a b)\<bar> \<le> b
         \<and> (\<bar>2 * (a - b * py_round_div a b)\<bar> = b \<longrightarrow> even (py_round_div a b))"
proof -
  define q where "q = a div b"
  define r where "r = a mod b"
  have a: "a = b * q + r" and r: "0 \<le> r" "r < b"
    using assms by (simp_all add: q_def r_def)
  consider "2 * r < b" | "b < 2 * r" | "2 * r = b"
    by linarith
  then show ?thesis
  proof cases
    case 1
    then show ?thesis
      using a r by (simp add: py_round_div_def Let_def q_def [symmetric] r_def [symmetric]
          abs_if algebra_simps)
  next
    case 2
    then show ?thesis
      using a r by (simp add: py_round_div_def Let_def q_def [symmetric] r_def [symmetric]
          abs_if algebra_simps)
  next
    case 3
    then show ?thesis
      using a r by (auto simp: py_round_div_def Let_def q_def [symmetric] r_def [symmetric]
          abs_if algebra_simps)
  qed
qed

lemma py_round_div_nonneg:
  assumes "0 \<le> a" and "0 < b"
  shows "0 \<le> py_round_div a b"
  using assms by (simp add: py_round_div_def Let_def pos_imp_zdiv_nonneg_iff)

lemma py_round_div_le:
  assumes "0 \<le> a" and "0 < b"
  shows "py_round_div a b \<le> a div b + 1"
  using assms by (simp add: py_round_div_def Let_def)

lemma round_close_unique:
  fixes a b k r :: int
  assumes "0 < b" and "\<bar>2 * (a - b * k)\<bar> \<le> b" and "\<bar>2 * (a - b * r)\<bar> \<le> b"
  shows "\<bar>k - r\<bar> \<le> 1"
proof -
  have "\<bar>2 * b * (k - r)\<bar> \<le> 2 * b"
    using assms(2,3) by (simp add: algebra_simps abs_if split: if_splits)
  then have "2 * b * \<bar>k - r\<bar> \<le> 2 * b * 1"
    using assms(1) by (simp add: abs_mult)
  then show ?thesis
    using assms(1) by (simp add: mult_le_cancel_left_pos)
qed


lemma resample_audio_Inr:
  assumes "0 < orig_sr" and "0 \<le> target_sr"
  shows "resample_audio rs audio orig_sr target_sr =
           Inr (map astype_int16 (rs (map sint audio)
             (nat (py_round_div (int (length audio) * target_sr) orig_sr))))"
  using assms py_round_div_nonneg [of "int (length audio) * target_sr" orig_sr]
  by (simp add: resample_audio_def num_samples_def)

section \<open>Properties of the converter\<close>

text \<open>
  C16: \<open>py_round_div a b\<close> is Python's \<open>round(a / b)\<close> for a positive
  denominator: it is \<open>k\<close> exactly when \<open>k\<close> is strictly nearer than half a
  unit to \<open>a / b\<close>, or \<open>a / b\<close> lies half-way and \<open>k\<close> is the even
  neighbour (banker's rounding).
\<close>

theorem py_round_div_spec:
  assumes "0 < b"
  shows "py_round_div a b = k \<longleftrightarrow>
    \<bar>2 * (a - b * k)\<bar> < b \<or> (\<bar>2 * (a - b * k)\<bar> = b \<and> even k)"
proof -
  define r where "r = py_round_div a b"
  have r: "\<bar>2 * (a - b * r)\<bar> \<le> b" "\<bar>2 * (a - b * r)\<bar> = b \<longrightarrow> even r"
    using py_round_div_cases [OF assms, of a] by (simp_all add: r_def)
  show ?thesis
  proof
    assume "py_round_div a b = k"
    then show "\<bar>2 * (a - b * k)\<bar> < b \<or> (\<bar>2 * (a - b * k)\<bar> = b \<and> even k)"
      using r by (auto simp: r_def)
  next
    assume k: "\<bar>2 * (a - b * k)\<bar> < b \<or> (\<bar>2 * (a - b * k)\<bar> = b \<and> even k)"
    then have "\<bar>k - r\<bar> \<le> 1"
      using round_close_unique [OF assms _ r(1), of k] by auto
    then consider "k = r" | "k = r + 1" | "k = r - 1"
      by linarith
    then show "py_round_div a b = k"
    proof cases
      case 1
      then show ?thesis by (simp add: r_def)
    next
      case 2
      then show ?thesis
        using k r assms by (auto simp: abs_if algebra_simps split: if_splits)
    next
      case 3
      then show ?thesis
        using k r assms by (auto simp: abs_if algebra_simps split: if_splits)
    qed
  qed
qed

theorem py_round_div_spec_witness:
  "py_round_div 5 2 = 2 \<and> py_round_div 7 2 = 4 \<and> py_round_div 1280000000 44100 = 29025"
proof -
  have "\<bar>2 * (5 - 2 * 2)\<bar> = (2::int) \<and> even (2::int)" by simp
  moreover have "\<bar>2 * (7 - 2 * 4)\<bar> = (2::int) \<and> even (4::int)" by simp
  moreover have "\<bar>2 * (1280000000 - 44100 * 29025)\<bar> < (44100::int)" by simp
  ultimately show ?thesis
    using py_round_div_spec [of 2 5 2] py_round_div_spec [of 2 7 4]
      py_round_div_spec [of 44100 1280000000 29025] by simp
qed

text \<open>
  C4: for a positive source rate and a non-negative target rate,
  \<open>resample_audio\<close> returns a block whose length is Python's rounding of
  \<open>len * target / orig\<close>, so it differs from the exact quotient by at most
  half a sample, provided the library resampler keeps its length contract.
\<close>

theorem resample_audio_length:
  assumes "resampler_ok rs" and "0 < orig_sr" and "0 \<le> target_sr"
  shows "\<exists>ys. resample_audio rs audio orig_sr target_sr = Inr ys
     \<and> int (length ys) = py_round_div (int (length audio) * target_sr) orig_sr
     \<and> \<bar>2 * (int (length audio) * target_sr - orig_sr * int (length ys))\<bar> \<le> orig_sr"
proof -
  let ?n = "py_round_div (int (length audio) * target_sr) orig_sr"
  have nonneg: "0 \<le> ?n"
    using assms(2,3) by (simp add: py_round_div_nonneg)
  have len: "length (rs (map sint audio) (nat ?n)) = nat ?n"
    using assms(1) by (simp add: resampler_ok_def)
  show ?thesis
    using resample_audio_Inr [OF assms(2,3), of rs audio] len nonneg
      py_round_div_cases [OF assms(2), of "int (length audio) * target_sr"]
    by simp
qed

theorem resample_audio_length_witness:
  "\<exists>ys. resample_audio (\<lambda>xs n. replicate n 0) (replicate 3 0) 2 1 = Inr ys
     \<and> int (length ys) = py_round_div (int (length (replicate 3 (0::int16))) * 1) 2
     \<and> \<bar>2 * (int (length (replicate 3 (0::int16))) * 1 - 2 * int (length ys))\<bar> \<le> 2"
proof -
  have "resampler_ok (\<lambda>xs n. replicate n 0)"
    by (simp add: resampler_ok_def)
  then show ?thesis
    using resample_audio_length [of "\<lambda>xs n. replicate n 0" 2 1 "replicate 3 0"] by simp
qed





end
