(* ===== verification/Wav.thy ===== *)
theory Wav
  imports Prelude
begin

text \<open>
  The container the transcription request carries: lines 153-160 of
  \<open>src/live_transcribe.py\<close> open a \<open>wave\<close> writer on a \<open>BytesIO\<close>, set one
  channel, a sample width of 2 bytes and a frame rate of 16000, and write
  \<open>audio_chunk.tobytes()\<close>. The model is the byte string that results:
  the 44-byte RIFF/WAVE header the \<open>wave\<close> module packs with
  \<open>struct.pack('<L4s4sLHHLLHH4s', ...)\<close> and \<open>struct.pack('<L', ...)\<close>,
  followed by the samples in numpy's native little-endian order. A reader of
  the container, \<open>wav_decode\<close>, is the reference against which the encoding
  is proved lossless.
\<close>

section \<open>Little-endian integers\<close>

text \<open>\<open>le_bytes k n\<close>: the \<open>k\<close> low bytes of \<open>n\<close>, least significant first.\<close>

fun le_bytes :: "nat \<Rightarrow> nat \<Rightarrow> byte list" where
  "le_bytes 0 n = []"
| "le_bytes (Suc k) n = of_nat (n mod 256) # le_bytes k (n div 256)"

fun from_le :: "byte list \<Rightarrow> nat" where
  "from_le [] = 0"
| "from_le (b # bs) = unat b + 256 * from_le bs"

definition ascii_bytes :: "string \<Rightarrow> byte list" where
  "ascii_bytes s = map (\<lambda>c. of_nat (of_char c)) s"

text \<open>\<open>ndarray.tobytes()\<close> of an int16 array: two bytes per sample.\<close>

definition tobytes :: "int16 list \<Rightarrow> byte list" where
  "tobytes xs = concat (map (\<lambda>w. le_bytes 2 (unat w)) xs)"

section \<open>The wave writer\<close>

text \<open>
  The header \<open>wave.Wave_write\<close> writes for \<open>nchannels\<close>, \<open>sampwidth\<close>,
  \<open>framerate\<close> and a data length in bytes (format tag 1 is PCM).
\<close>

definition wav_header :: "nat \<Rightarrow> nat \<Rightarrow> nat \<Rightarrow> nat \<Rightarrow> byte list" where
  "wav_header nchannels sampwidth framerate datalength =
     ascii_bytes ''RIFF'' @ le_bytes 4 (36 + datalength) @ ascii_bytes ''WAVE''
     @ ascii_bytes ''fmt '' @ le_bytes 4 16 @ le_bytes 2 1 @ le_bytes 2 nchannels
     @ le_bytes 4 framerate @ le_bytes 4 (nchannels * framerate * sampwidth)
     @ le_bytes 2 (nchannels * sampwidth) @ le_bytes 2 (sampwidth * 8)
     @ ascii_bytes ''data'' @ le_bytes 4 datalength"

text \<open>
  The request body built from a chunk: \<open>struct.pack('<L', 36 + datalength)\<close>
  raises \<open>struct.error\<close> when the value does not fit in 32 bits.
\<close>

definition wav_encode :: "int16 list \<Rightarrow> py_error + byte list" where
  "wav_encode audio_chunk =
     (let data = tobytes audio_chunk in
      if 2 ^ 32 \<le> 36 + length data then Inl StructError
      else Inr (wav_header 1 2 16000 (length data) @ data))"

section \<open>A reader of the container\<close>

definition byte_slice :: "nat \<Rightarrow> nat \<Rightarrow> 'a list \<Rightarrow> 'a list" where
  "byte_slice i j xs = take (j - i) (drop i xs)"

fun decode_samples :: "byte list \<Rightarrow> int16 list option" where
  "decode_samples [] = Some []"
| "decode_samples [b] = None"
| "decode_samples (b0 # b1 # bs) =
     map_option (Cons (of_nat (from_le [b0, b1]))) (decode_samples bs)"

text \<open>
  \<open>wav_decode\<close> checks the fixed fields of a PCM header and the two length
  fields against the data, and returns the channel count, the sample width
  in bytes, the frame rate and the samples.
\<close>

definition wav_decode :: "byte list \<Rightarrow> (nat \<times> nat \<times> nat \<times> int16 list) option" where
  "wav_decode bs =
     (let h = take 44 bs; data = drop 44 bs in
      if length bs < 44 then None
      else if byte_slice 0 4 h = ascii_bytes ''RIFF'' \<and> byte_slice 8 12 h = ascii_bytes ''WAVE''
        \<and> byte_slice 12 16 h = ascii_bytes ''fmt '' \<and> from_le (byte_slice 16 20 h) = 16
        \<and> from_le (byte_slice 20 22 h) = 1 \<and> from_le (byte_slice 34 36 h) = 16
        \<and> byte_slice 36 40 h = ascii_bytes ''data''
        \<and> from_le (byte_slice 4 8 h) = 36 + length data
        \<and> from_le (byte_slice 40 44 h) = length data
      then map_option (\<lambda>xs. (from_le (byte_slice 22 24 h), from_le (byte_slice 34 36 h) div 8,
                             from_le (byte_slice 24 28 h), xs)) (decode_samples data)
      else None)"

section \<open>Encoding facts\<close>

lemma length_le_bytes [simp]: "length (le_bytes k n) = k"
  by (induction k arbitrary: n) simp_all

lemma from_le_bytes [simp]: "n < 256 ^ k \<Longrightarrow> from_le (le_bytes k n) = n"
proof (induction k arbitrary: n)
  case 0
  then show ?case by simp
next
  case (Suc k)
  have "n div 256 < 256 ^ k"
    using Suc.prems by (simp add: less_mult_imp_div_less mult.commute)
  then show ?case
    by (simp add: Suc.IH unat_of_nat)
qed

lemma length_tobytes [simp]: "length (tobytes xs) = 2 * length xs"
  by (induction xs) (simp_all add: tobytes_def)

lemma decode_samples_tobytes [simp]: "decode_samples (tobytes xs) = Some xs"
proof (induction xs)
  case Nil
  then show ?case by (simp add: tobytes_def)
next
  case (Cons w xs)
  have lt: "unat w < 256 ^ 2"
    using unsigned_less [of w] by simp
  obtain b0 b1 where bs: "le_bytes 2 (unat w) = [b0, b1]"
    by (simp add: numeral_2_eq_2)
  have "of_nat (from_le [b0, b1]) = w"
    using from_le_bytes [OF lt] bs by simp
  with Cons show ?case
    by (simp add: tobytes_def bs)
qed

lemma length_wav_header [simp]: "length (wav_header c w r d) = 44"
  by (simp add: wav_header_def ascii_bytes_def)

lemma wav_decode_header:
  assumes "d < 2 ^ 32 - 36" and "length data = d"
  shows "wav_decode (wav_header 1 2 16000 d @ data) =
           map_option (\<lambda>xs. (1, 2, 16000, xs)) (decode_samples data)"
  using assms by (simp add: wav_decode_def wav_header_def byte_slice_def ascii_bytes_def Let_def)

lemma wav_encode_Inr:
  "36 + 2 * length xs < 2 ^ 32 \<Longrightarrow>
     wav_encode xs = Inr (wav_header 1 2 16000 (2 * length xs) @ tobytes xs)"
  by (simp add: wav_encode_def)

lemma wav_encode_decodes:
  "wav_encode xs = Inr bs \<Longrightarrow> wav_decode bs = Some (1, 2, 16000, xs)"
  using wav_decode_header [of "2 * length xs" "tobytes xs"]
  by (auto simp: wav_encode_def Let_def split: if_splits)

section \<open>The request body is lossless\<close>

text \<open>
  C14: for every chunk whose data fits the 32-bit RIFF length fields, the
  writer produces a container of \<open>44 + 2 * n\<close> bytes that a WAV reader
  decodes back to one channel, 2-byte samples, 16000 frames per second and
  exactly the chunk's samples.
\<close>

theorem wav_roundtrip:
  assumes "36 + 2 * length xs < 2 ^ 32"
  shows "\<exists>bs. wav_encode xs = Inr bs \<and> wav_decode bs = Some (1, 2, 16000, xs)
           \<and> length bs = 44 + 2 * length xs"
  using assms wav_decode_header [of "2 * length xs" "tobytes xs"]
  by (simp add: wav_encode_def)

theorem wav_roundtrip_witness:
  "\<exists>bs. wav_encode [1, -1] = Inr bs \<and> wav_decode bs = Some (1, 2, 16000, [1, -1])
     \<and> length bs = 44 + 2 * length [1, -1 :: int16]"
  using wav_roundtrip [of "[1, -1]"] by simp

end
