(* ===== verification/Dispatch.thy ===== *)
theory Dispatch
  imports Prelude
begin

text \<open>
  What the transcription loop shows for a request's outcome: lines 162-175
  of \<open>src/live_transcribe.py\<close>. The answer's text is stripped of
  whitespace; an empty text and the filler transcription "you" (in any
  letter case) clear the overlay, any other text is shown behind a green
  marker, and an exception of the request shows the error marker. Strings
  are UTF-8 byte strings; the status markers are written out as their bytes.
\<close>

section \<open>Status texts\<close>

definition green_circle :: string where
  "green_circle = [CHR 0xF0, CHR 0x9F, CHR 0x9F, CHR 0xA2]"

definition yellow_circle :: string where
  "yellow_circle = [CHR 0xF0, CHR 0x9F, CHR 0x9F, CHR 0xA1]"

definition red_circle :: string where
  "red_circle = [CHR 0xF0, CHR 0x9F, CHR 0x94, CHR 0xB4]"

definition pause_sign :: string where
  "pause_sign = [CHR 0xE2, CHR 0x8F, CHR 0xB8]"

definition msg_waiting :: string where
  "msg_waiting = yellow_circle @ '' Waiting for input...''"

definition msg_api_error :: string where
  "msg_api_error = red_circle @ '' API error.''"

definition msg_paused :: string where
  "msg_paused = pause_sign @ '' Paused''"

definition msg_resumed :: string where
  "msg_resumed = green_circle @ '' Resumed''"

section \<open>str.strip and str.lower\<close>

text \<open>
  The characters for which Python's \<open>str.isspace\<close> holds, as UTF-8 byte
  sequences: the ASCII ones (tab to carriage return, the four separators
  \<open>\x1c\<close>-\<open>\x1f\<close>, space) and U+0085, U+00A0, U+1680, U+2000-U+200A,
  U+2028, U+2029, U+202F, U+205F, U+3000.
\<close>

definition py_space_seqs :: "string list" where
  "py_space_seqs =
     [[CHR 0x09], [CHR 0x0A], [CHR 0x0B], [CHR 0x0C], [CHR 0x0D],
      [CHR 0x1C], [CHR 0x1D], [CHR 0x1E], [CHR 0x1F], [CHR 0x20],
      [CHR 0xC2, CHR 0x85], [CHR 0xC2, CHR 0xA0], [CHR 0xE1, CHR 0x9A, CHR 0x80],
      [CHR 0xE2, CHR 0x80, CHR 0x80], [CHR 0xE2, CHR 0x80, CHR 0x81],
      [CHR 0xE2, CHR 0x80, CHR 0x82], [CHR 0xE2, CHR 0x80, CHR 0x83],
      [CHR 0xE2, CHR 0x80, CHR 0x84], [CHR 0xE2, CHR 0x80, CHR 0x85],
      [CHR 0xE2, CHR 0x80, CHR 0x86], [CHR 0xE2, CHR 0x80, CHR 0x87],
      [CHR 0xE2, CHR 0x80, CHR 0x88], [CHR 0xE2, CHR 0x80, CHR 0x89],
      [CHR 0xE2, CHR 0x80, CHR 0x8A], [CHR 0xE2, CHR 0x80, CHR 0xA8],
      [CHR 0xE2, CHR 0x80, CHR 0xA9], [CHR 0xE2, CHR 0x80, CHR 0xAF],
      [CHR 0xE2, CHR 0x81, CHR 0x9F], [CHR 0xE3, CHR 0x80, CHR 0x80]]"

text \<open>
  The length of the whitespace character a string starts with, 0 when it
  starts with none (UTF-8 is prefix-free, so at most one sequence matches).
\<close>

definition space_len :: "string list \<Rightarrow> string \<Rightarrow> nat" where
  "space_len ws s =
     (case find (\<lambda>w. w \<noteq> [] \<and> take (length w) s = w) ws of
        None \<Rightarrow> 0
      | Some w \<Rightarrow> length w)"

function strip_lead :: "string list \<Rightarrow> string \<Rightarrow> string" where
  "strip_lead ws s =
     (case space_len ws s of 0 \<Rightarrow> s | Suc k \<Rightarrow> strip_lead ws (drop (Suc k) s))"
  by pat_completeness auto
termination
proof (relation "measure (\<lambda>(ws, s). length s)")
  fix ws s k
  assume k: "space_len ws s = Suc k"
  then obtain w where w: "find (\<lambda>w. w \<noteq> [] \<and> take (length w) s = w) ws = Some w"
    and len: "length w = Suc k"
    by (auto simp: space_len_def split: option.splits)
  from w have "take (length w) s = w"
    by (auto simp: find_Some_iff)
  then have "length (take (length w) s) = length w"
    by (rule arg_cong)
  with len show "((ws, drop (Suc k) s), ws, s) \<in> measure (\<lambda>(ws, s). length s)"
    by (simp add: min_def split: if_splits)
qed simp

declare strip_lead.simps [simp del]

text \<open>\<open>str.strip()\<close>: leading whitespace, then trailing whitespace (read backwards).\<close>

definition py_strip :: "pystr \<Rightarrow> pystr" where
  "py_strip s =
     rev (strip_lead (map rev py_space_seqs) (rev (strip_lead py_space_seqs s)))"

text \<open>
  \<open>str.lower()\<close> on the ASCII letters. Other characters are kept: among
  all code points beyond ASCII only the Kelvin sign lower-cases to an ASCII
  letter (\<open>k\<close>), so the comparison with \<open>"you"\<close>, the only use of
  \<open>lower\<close> in the program, has the same outcome as with Python's full
  Unicode mapping.
\<close>

definition py_lower :: "pystr \<Rightarrow> pystr" where
  "py_lower s =
     map (\<lambda>c. let n = of_char c in if 65 \<le> n \<and> n \<le> (90::nat) then char_of (n + 32) else c) s"

section \<open>The outcome of a request\<close>

text \<open>
  \<open>client.audio.translations.create(...)\<close> either returns a response
  with a text or raises; every exception of the \<open>try\<close> block (network,
  status, a malformed response) takes the same \<open>except\<close> branch.
\<close>

datatype api_result = ApiText pystr | ApiException

definition handle_response :: "api_result \<Rightarrow> pystr" where
  "handle_response r =
     (case r of
        ApiException \<Rightarrow> msg_api_error
      | ApiText t \<Rightarrow>
          (let text = py_strip t in
           if text \<noteq> [] \<and> py_lower text \<noteq> ''you'' then green_circle @ '' '' @ text
           else ''''))"

section \<open>Facts about stripping\<close>

lemma space_len_le: "space_len ws s \<le> length s"
proof (cases "find (\<lambda>w. w \<noteq> [] \<and> take (length w) s = w) ws")
  case None
  then show ?thesis by (simp add: space_len_def)
next
  case (Some w)
  then have "take (length w) s = w"
    by (auto simp: find_Some_iff)
  then have "length (take (length w) s) = length w"
    by (rule arg_cong)
  then have "length w \<le> length s"
    by (simp add: min_def split: if_splits)
  with Some show ?thesis
    by (simp add: space_len_def)
qed

lemma space_len_Nil [simp]: "space_len ws [] = 0"
  by (auto simp: space_len_def dest!: find_Some_iff [THEN iffD1] split: option.splits)

lemma strip_lead_stop: "space_len ws s = 0 \<Longrightarrow> strip_lead ws s = s"
  by (simp add: strip_lead.simps [of ws s])

lemma strip_lead_step:
  "space_len ws s = Suc k \<Longrightarrow> strip_lead ws s = strip_lead ws (drop (Suc k) s)"
  by (simp add: strip_lead.simps [of ws s])

lemma space_len_Suc:
  assumes "space_len ws s = Suc k"
  obtains w where "w \<in> set ws" "length w = Suc k" "take (Suc k) s = w"
  using assms
  by (auto simp: space_len_def find_Some_iff split: option.splits dest: nth_mem)

lemma space_len_zero_iff:
  "space_len ws s = 0 \<longleftrightarrow> (\<forall>w \<in> set ws. w = [] \<or> take (length w) s \<noteq> w)"
  by (auto simp: space_len_def find_None_iff split: option.splits dest!: find_Some_iff [THEN iffD1])

lemma strip_lead_decomp:
  "\<exists>pre. s = pre @ strip_lead ws s \<and> pre \<in> concat ` lists (set ws)
     \<and> space_len ws (strip_lead ws s) = 0"
proof (induction ws s rule: strip_lead.induct)
  case (1 ws s)
  show ?case
  proof (cases "space_len ws s")
    case 0
    then show ?thesis
      by (intro exI [of _ "[]"]) (auto simp: strip_lead_stop intro: image_eqI [of _ _ "[]"])
  next
    case (Suc k)
    then obtain w where w: "w \<in> set ws" "length w = Suc k" "take (Suc k) s = w"
      by (rule space_len_Suc)
    from "1" Suc obtain pre where
      pre: "drop (Suc k) s = pre @ strip_lead ws (drop (Suc k) s)"
        "pre \<in> concat ` lists (set ws)" "space_len ws (strip_lead ws (drop (Suc k) s)) = 0"
      by auto
    from pre(2) obtain l where l: "l \<in> lists (set ws)" "pre = concat l"
      by auto
    have "s = (w @ pre) @ strip_lead ws s"
      using w(3) pre(1) Suc by (metis append.assoc append_take_drop_id strip_lead_step)
    moreover have "w @ pre \<in> concat ` lists (set ws)"
      using w(1) l by (auto intro!: image_eqI [of _ _ "w # l"])
    moreover have "space_len ws (strip_lead ws s) = 0"
      using pre(3) Suc by (simp add: strip_lead_step)
    ultimately show ?thesis
      by blast
  qed
qed

lemma rev_concat_lists:
  "xs \<in> concat ` lists (set (map rev ws)) \<Longrightarrow> rev xs \<in> concat ` lists (set ws)"
proof -
  assume "xs \<in> concat ` lists (set (map rev ws))"
  then obtain l where l: "l \<in> lists (set (map rev ws))" "xs = concat l"
    by auto
  have "rev xs = concat (rev (map rev l))"
    using l(2) by (simp add: rev_concat rev_map)
  moreover have "rev (map rev l) \<in> lists (set ws)"
    using l(1) by (fastforce simp: image_iff)
  ultimately show ?thesis
    by blast
qed

lemma space_len_prefix:
  "space_len ws (p @ q) = 0 \<Longrightarrow> space_len ws p = 0"
  by (auto simp: space_len_zero_iff)

lemma py_strip_decomp:
  "\<exists>pre suf. s = pre @ py_strip s @ suf
     \<and> pre \<in> concat ` lists (set py_space_seqs) \<and> suf \<in> concat ` lists (set py_space_seqs)
     \<and> space_len py_space_seqs (py_strip s) = 0
     \<and> space_len (map rev py_space_seqs) (rev (py_strip s)) = 0"
proof -
  let ?W = py_space_seqs and ?R = "map rev py_space_seqs"
  let ?t = "strip_lead ?W s"
  obtain pre where pre: "s = pre @ ?t" "pre \<in> concat ` lists (set ?W)" "space_len ?W ?t = 0"
    using strip_lead_decomp by blast
  obtain rpre where rpre: "rev ?t = rpre @ strip_lead ?R (rev ?t)"
    "rpre \<in> concat ` lists (set ?R)" "space_len ?R (strip_lead ?R (rev ?t)) = 0"
    using strip_lead_decomp by blast
  have strip: "py_strip s = rev (strip_lead ?R (rev ?t))"
    by (simp add: py_strip_def)
  have t: "?t = py_strip s @ rev rpre"
    using rpre(1) strip by (metis rev_append rev_rev_ident)
  have "rev rpre \<in> concat ` lists (set ?W)"
    using rpre(2) by (rule rev_concat_lists)
  moreover have "space_len ?W (py_strip s) = 0"
    using pre(3) t space_len_prefix by metis
  moreover have "space_len ?R (rev (py_strip s)) = 0"
    using rpre(3) strip by simp
  ultimately show ?thesis
    using pre(1,2) t by (metis append.assoc)
qed

lemma py_strip_idem [simp]: "py_strip (py_strip s) = py_strip s"
  using py_strip_decomp [of s]
  by (auto simp: py_strip_def [of "py_strip s"] strip_lead_stop)

section \<open>What the overlay shows for an answer\<close>

text \<open>
  C5: an answer clears the overlay exactly when its stripped text is empty
  or is the filler "you" in some letter case; every other answer is shown,
  so a real transcription is never swallowed.
\<close>

theorem handle_response_cleared:
  "handle_response (ApiText t) = [] \<longleftrightarrow> py_strip t = [] \<or> py_lower (py_strip t) = ''you''"
  by (auto simp: handle_response_def Let_def green_circle_def )

theorem handle_response_cleared_witness:
  "handle_response (ApiText '' You '') = [] \<and> py_strip '' You '' = ''You''
   \<and> py_lower ''You'' = ''you''"
proof -
  have strip: "py_strip '' You '' = ''You''"
    by (simp add: py_strip_def strip_lead_step strip_lead_stop space_len_def py_space_seqs_def)
  have lower: "py_lower ''You'' = ''you''"
    by (simp add: py_lower_def char_of_def bit_simps)
  show ?thesis
    using handle_response_cleared [of "'' You ''"] strip lower by simp
qed

text \<open>
  C20: the display after a failed request differs from every display a
  successful request can produce, so an error never looks like a stale
  success.
\<close>

theorem api_error_distinct: "handle_response ApiException \<noteq> handle_response (ApiText t)"
  by (auto simp: handle_response_def Let_def green_circle_def red_circle_def
      msg_api_error_def )

section \<open>strip() removes exactly the surrounding whitespace\<close>

text \<open>
  C22: \<open>py_strip\<close> is Python's \<open>str.strip()\<close>: the text is the stripped
  text between a prefix and a suffix made only of whitespace characters,
  and the stripped text neither begins nor ends with one.
\<close>

theorem py_strip_spec:
  "\<exists>pre suf. s = pre @ py_strip s @ suf
     \<and> pre \<in> concat ` lists (set py_space_seqs) \<and> suf \<in> concat ` lists (set py_space_seqs)
     \<and> (\<forall>w \<in> set py_space_seqs. take (length w) (py_strip s) \<noteq> w
          \<and> drop (length (py_strip s) - length w) (py_strip s) \<noteq> w)"
proof -
  let ?W = py_space_seqs and ?R = "map rev py_space_seqs"
  obtain pre suf where d: "s = pre @ py_strip s @ suf"
    "pre \<in> concat ` lists (set ?W)" "suf \<in> concat ` lists (set ?W)"
    "space_len ?W (py_strip s) = 0" "space_len ?R (rev (py_strip s)) = 0"
    using py_strip_decomp by blast
  have nonempty: "\<forall>w \<in> set ?W. w \<noteq> []"
    by (simp add: py_space_seqs_def)
  have "\<forall>w \<in> set ?W. take (length w) (py_strip s) \<noteq> w"
    using d(4) nonempty by (auto simp: space_len_zero_iff)
  moreover have "\<forall>w \<in> set ?W. drop (length (py_strip s) - length w) (py_strip s) \<noteq> w"
  proof
    fix w assume w: "w \<in> set ?W"
    show "drop (length (py_strip s) - length w) (py_strip s) \<noteq> w"
    proof
      assume "drop (length (py_strip s) - length w) (py_strip s) = w"
      then have "take (length (rev w)) (rev (py_strip s)) = rev w"
        by (metis rev_drop length_rev rev_rev_ident take_rev)
      moreover have "rev w \<in> set ?R" "rev w \<noteq> []"
        using w nonempty by auto
      ultimately show False
        using d(5) by (auto simp: space_len_zero_iff)
    qed
  qed
  ultimately show ?thesis
    using d(1-3) by blast
qed

theorem py_strip_spec_witness:
  "py_strip '' You '' = ''You''
   \<and> (\<exists>pre suf. '' You '' = pre @ ''You'' @ suf
        \<and> pre \<in> concat ` lists (set py_space_seqs) \<and> suf \<in> concat ` lists (set py_space_seqs))"
proof -
  have strip: "py_strip '' You '' = ''You''"
    by (simp add: py_strip_def strip_lead_step strip_lead_stop space_len_def py_space_seqs_def)
  obtain pre suf where "'' You '' = pre @ py_strip '' You '' @ suf"
    "pre \<in> concat ` lists (set py_space_seqs)" "suf \<in> concat ` lists (set py_space_seqs)"
    using py_strip_spec [of "'' You ''"] by blast
  with strip show ?thesis
    by auto
qed

end
