(* ===== verification/Config.thy ===== *)
theory Config
  imports Prelude
begin

text \<open>
  The files the program keeps beside itself: \<open>config.json\<close> with the
  selected device (\<open>save_device\<close>, \<open>load_device\<close>, lines 93-102 of
  \<open>src/live_transcribe.py\<close>), the \<open>.env\<close> file with the API key, and the
  first-run step \<open>create_initial_files\<close> (lines 209-235) with the credential
  check of the entry point (lines 240-243).
\<close>

section \<open>config.json\<close>

text \<open>
  The JSON values the program stores under \<open>"device_index"\<close>: an integer
  written by \<open>save_device\<close>, or \<open>null\<close> written by the first run. The file
  is absent, unparsable (\<open>json.load\<close> raises), holds a JSON value that is
  not an object (\<open>.get\<close> raises \<open>AttributeError\<close>), or holds an object.
\<close>

datatype json = JNull | JInt int

datatype cfg = CfgAbsent | CfgUnparsable | CfgNotObject | CfgObject "string \<rightharpoonup> json"

text \<open>\<open>open(CONFIG_FILE, 'w')\<close> truncates: the whole file is replaced.\<close>

definition save_device :: "int \<Rightarrow> cfg \<Rightarrow> cfg" where
  "save_device index c = CfgObject [''device_index'' \<mapsto> JInt index]"

definition load_device :: "cfg \<Rightarrow> py_error + int option" where
  "load_device c =
     (case c of
        CfgAbsent \<Rightarrow> Inr None
      | CfgUnparsable \<Rightarrow> Inl JSONDecodeError
      | CfgNotObject \<Rightarrow> Inl AttributeError
      | CfgObject d \<Rightarrow>
          (case d ''device_index'' of
             None \<Rightarrow> Inr None
           | Some JNull \<Rightarrow> Inr None
           | Some (JInt i) \<Rightarrow> Inr (Some i)))"

section \<open>First run and credentials\<close>

text \<open>
  \<open>.env\<close> is absent or holds the variables \<open>load_dotenv\<close> reads from it.
  The first run writes the line \<open>OPENAI_API_KEY=\<close>, which sets the key to
  the empty string.
\<close>

record files =
  env_file :: "(string \<rightharpoonup> string) option"
  config_file :: cfg

definition create_initial_files :: "files \<Rightarrow> files \<times> bool" where
  "create_initial_files fs =
     (let env_created = (env_file fs = None);
          fs1 = (if env_created then fs\<lparr>env_file := Some [''OPENAI_API_KEY'' \<mapsto> '''']\<rparr> else fs);
          fs2 = (if config_file fs1 = CfgAbsent
                 then fs1\<lparr>config_file := CfgObject [''device_index'' \<mapsto> JNull]\<rparr> else fs1)
      in (fs2, env_created))"

text \<open>
  The outcome of the entry point's first lines: \<open>sys.exit(1)\<close> after
  creating \<open>.env\<close>, the uncaught \<open>OpenAIError\<close> of \<open>openai.OpenAI\<close> when
  no key is set at all, or the client with its key. \<open>load_dotenv\<close> does not
  override a variable the process environment \<open>os_env\<close> already has.
\<close>

datatype startup = ExitAfterSetup | Crash py_error | ClientReady string

definition getenv_key :: "(string \<rightharpoonup> string) \<Rightarrow> files \<Rightarrow> string option" where
  "getenv_key os_env fs =
     (case os_env ''OPENAI_API_KEY'' of
        Some v \<Rightarrow> Some v
      | None \<Rightarrow> (case env_file fs of None \<Rightarrow> None | Some e \<Rightarrow> e ''OPENAI_API_KEY''))"

definition startup_client :: "(string \<rightharpoonup> string) \<Rightarrow> files \<Rightarrow> startup \<times> files" where
  "startup_client os_env fs =
     (let (fs', exit) = create_initial_files fs in
      if exit then (ExitAfterSetup, fs')
      else case getenv_key os_env fs' of
             None \<Rightarrow> (Crash OpenAIError, fs')
           | Some k \<Rightarrow> (ClientReady k, fs'))"

section \<open>Facts about the configuration\<close>

lemma load_device_CfgObject_Int [simp]:
  "load_device (CfgObject [''device_index'' \<mapsto> JInt i]) = Inr (Some i)"
  by (simp add: load_device_def)

text \<open>
  C13: whatever the file held before, loading after \<open>save_device i\<close>
  returns \<open>i\<close>; and the configuration the first run creates loads as "no
  device", so the program waits for a selection.
\<close>

theorem load_save_roundtrip:
  "load_device (save_device i c) = Inr (Some i)
   \<and> load_device (config_file (fst (create_initial_files \<lparr>env_file = e, config_file = CfgAbsent\<rparr>)))
       = Inr None"
  by (simp add: save_device_def create_initial_files_def load_device_def Let_def)

text \<open>
  C19: the first run exits after writing \<open>.env\<close>; a second run with the
  file left as written does not stop: it builds a client with the empty key,
  although the specification makes a missing credential fatal. Only a key
  absent from both the environment and \<open>.env\<close> stops the program.
\<close>

theorem empty_key_not_fatal:
  assumes "os_env ''OPENAI_API_KEY'' = None" and "env_file fs = None"
  shows "fst (startup_client os_env fs) = ExitAfterSetup
     \<and> fst (startup_client os_env (snd (startup_client os_env fs))) = ClientReady ''''"
  using assms
  by (simp add: startup_client_def create_initial_files_def getenv_key_def Let_def)

theorem empty_key_not_fatal_witness:
  "fst (startup_client Map.empty \<lparr>env_file = None, config_file = CfgAbsent\<rparr>) = ExitAfterSetup
   \<and> fst (startup_client Map.empty
          (snd (startup_client Map.empty \<lparr>env_file = None, config_file = CfgAbsent\<rparr>)))
       = ClientReady ''''"
  using empty_key_not_fatal [of Map.empty "\<lparr>env_file = None, config_file = CfgAbsent\<rparr>"]
  by simp

text \<open>
  C26: the first-run step never overwrites a file that exists, and running
  it on its own result changes nothing and does not exit.
\<close>

theorem initial_files_idempotent:
  "create_initial_files (fst (create_initial_files fs)) = (fst (create_initial_files fs), False)
   \<and> (env_file fs \<noteq> None \<longrightarrow> env_file (fst (create_initial_files fs)) = env_file fs)
   \<and> (config_file fs \<noteq> CfgAbsent \<longrightarrow> config_file (fst (create_initial_files fs)) = config_file fs)"
  by (simp add: create_initial_files_def Let_def)

theorem initial_files_idempotent_witness:
  "create_initial_files (fst (create_initial_files \<lparr>env_file = None, config_file = CfgUnparsable\<rparr>))
     = (fst (create_initial_files \<lparr>env_file = None, config_file = CfgUnparsable\<rparr>), False)
   \<and> config_file (fst (create_initial_files \<lparr>env_file = None, config_file = CfgUnparsable\<rparr>))
     = CfgUnparsable"
  using initial_files_idempotent [of "\<lparr>env_file = None, config_file = CfgUnparsable\<rparr>"]
  by simp

end
