(* ===== verification/Devices.thy ===== *)
theory Devices
  imports Config
begin

text \<open>
  Device management: \<open>list_devices\<close> (lines 80-90 of
  \<open>src/live_transcribe.py\<close>), the device query of \<open>sounddevice\<close>, and
  \<open>set_input_device\<close> (lines 105-112), which writes the globals
  \<open>input_device_index\<close> and \<open>SAMPLE_RATE\<close>, persists the choice and sets
  \<open>selected_event\<close>. The device table of the audio subsystem is a list
  indexed as \<open>sd.query_devices()\<close> enumerates it.
\<close>

section \<open>The device table\<close>

text \<open>
  One entry of \<open>sd.query_devices()\<close>: name, input channels, host API
  number and default sample rate (a float), and whether
  \<open>sd.check_input_settings(device=i)\<close> succeeds for it (it raises
  \<open>PortAudioError\<close> for disabled devices).
\<close>

record device_info =
  dev_name :: pystr
  max_input_channels :: nat
  hostapi :: nat
  default_samplerate :: real
  input_ok :: bool

definition usable :: "device_info \<Rightarrow> bool" where
  "usable d \<longleftrightarrow> 0 < max_input_channels d \<and> hostapi d = 0 \<and> input_ok d"

text \<open>The loop of \<open>list_devices\<close> over \<open>enumerate(sd.query_devices())\<close>.\<close>

fun list_devices_from :: "nat \<Rightarrow> device_info list \<Rightarrow> (nat \<times> pystr) list" where
  "list_devices_from i [] = []"
| "list_devices_from i (d # ds) =
     (if 0 < max_input_channels d \<and> hostapi d = 0
      then (if input_ok d then (i, dev_name d) # list_devices_from (Suc i) ds
            else list_devices_from (Suc i) ds)
      else list_devices_from (Suc i) ds)"

definition list_devices :: "device_info list \<Rightarrow> (nat \<times> pystr) list" where
  "list_devices devs = list_devices_from 0 devs"

text \<open>\<open>sd.query_devices(index)\<close>: the entry, or \<open>PortAudioError\<close>.\<close>

definition query_device :: "device_info list \<Rightarrow> int \<Rightarrow> py_error + device_info" where
  "query_device devs i =
     (if 0 \<le> i \<and> nat i < length devs then Inr (devs ! nat i) else Inl PortAudioError)"

section \<open>The selection globals\<close>

record selection =
  input_device_index :: "int option"
  sample_rate :: "int option"
  selected_event :: bool
  sel_config :: cfg

text \<open>
  \<open>set_input_device(index)\<close> assigns \<open>input_device_index\<close> and calls
  \<open>save_device\<close> before it queries the device; a failing query raises out
  of the function with those two effects done and \<open>SAMPLE_RATE\<close> and the
  event untouched.
\<close>

definition set_input_device :: "device_info list \<Rightarrow> int \<Rightarrow> selection \<Rightarrow> (py_error + unit) \<times> selection" where
  "set_input_device devs index st =
     (let st1 = st\<lparr>input_device_index := Some index,
                   sel_config := save_device index (sel_config st)\<rparr> in
      case query_device devs index of
        Inl e \<Rightarrow> (Inl e, st1)
      | Inr info \<Rightarrow>
          (Inr (), st1\<lparr>sample_rate := Some (py_trunc (default_samplerate info)),
                      selected_event := True\<rparr>))"

text \<open>
  The invariant the specification states for the selection: a sample rate
  is known exactly when a device is selected.
\<close>

definition sel_inv :: "selection \<Rightarrow> bool" where
  "sel_inv st \<longleftrightarrow> (sample_rate st \<noteq> None \<longleftrightarrow> input_device_index st \<noteq> None)"

section \<open>Facts about the device list\<close>

lemma mem_list_devices_from:
  "(i, n) \<in> set (list_devices_from k ds) \<longleftrightarrow>
     k \<le> i \<and> i - k < length ds \<and> usable (ds ! (i - k)) \<and> n = dev_name (ds ! (i - k))"
proof (induction ds arbitrary: k)
  case Nil
  then show ?case by simp
next
  case (Cons d ds)
  show ?case
  proof (cases "i = k")
    case True
    then show ?thesis
      using Cons.IH [of "Suc k"] by (auto simp: usable_def)
  next
    case False
    then have "(k \<le> i) = (Suc k \<le> i)" and "i - k = Suc (i - Suc k)" if "k \<le> i"
      using that by auto
    then show ?thesis
      using Cons.IH [of "Suc k"] False by (auto simp: usable_def Suc_diff_Suc)
  qed
qed

lemma sorted_list_devices_from:
  "sorted_wrt (<) (map fst (list_devices_from k ds))"
proof (induction ds arbitrary: k)
  case Nil
  then show ?case by simp
next
  case (Cons d ds)
  have "\<forall>x \<in> set (map fst (list_devices_from (Suc k) ds)). k < x"
    by (auto simp: mem_list_devices_from)
  with Cons.IH [of "Suc k"] show ?case
    by simp
qed

lemma set_input_device_index:
  "input_device_index (snd (set_input_device ds i st)) = Some i"
  by (simp add: set_input_device_def Let_def split: sum.splits)

section \<open>Properties of device selection\<close>

text \<open>
  C12: the menu lists exactly the usable devices (an input channel, host API
  0, the input probe succeeds), each under its name and its position in the
  device table, in increasing order of that position.
\<close>

theorem list_devices_spec:
  "((i, n) \<in> set (list_devices devs) \<longleftrightarrow>
      i < length devs \<and> usable (devs ! i) \<and> n = dev_name (devs ! i))
   \<and> sorted_wrt (<) (map fst (list_devices devs))"
  by (simp add: list_devices_def mem_list_devices_from sorted_list_devices_from)

theorem list_devices_spec_witness:
  "((1, ''mic'') \<in> set (list_devices
      [\<lparr>dev_name = ''out'', max_input_channels = 0, hostapi = 0, default_samplerate = 48000, input_ok = True\<rparr>,
       \<lparr>dev_name = ''mic'', max_input_channels = 1, hostapi = 0, default_samplerate = 44100, input_ok = True\<rparr>])
     \<longleftrightarrow> 1 < length [\<lparr>dev_name = ''out'', max_input_channels = 0, hostapi = 0, default_samplerate = 48000, input_ok = True\<rparr>,
       \<lparr>dev_name = ''mic'', max_input_channels = 1, hostapi = 0, default_samplerate = 44100, input_ok = True\<rparr>]
       \<and> usable (\<lparr>dev_name = ''mic'', max_input_channels = 1, hostapi = 0, default_samplerate = 44100, input_ok = True\<rparr>)
       \<and> ''mic'' = ''mic'')
   \<and> list_devices
      [\<lparr>dev_name = ''out'', max_input_channels = 0, hostapi = 0, default_samplerate = 48000, input_ok = True\<rparr>,
       \<lparr>dev_name = ''mic'', max_input_channels = 1, hostapi = 0, default_samplerate = 44100, input_ok = True\<rparr>]
     = [(1, ''mic'')]"
  using list_devices_spec [of 1 "''mic''"
      "[\<lparr>dev_name = ''out'', max_input_channels = 0, hostapi = 0, default_samplerate = 48000, input_ok = True\<rparr>,
        \<lparr>dev_name = ''mic'', max_input_channels = 1, hostapi = 0, default_samplerate = 44100, input_ok = True\<rparr>]"]
  by (simp add: list_devices_def usable_def)

text \<open>
  C10: choosing a device the menu lists succeeds: afterwards the device and
  its truncated default rate are the selection, the selection invariant
  holds, the waiting entry point is released and the choice is persisted.
\<close>

theorem select_listed_device:
  assumes "(i, n) \<in> set (list_devices devs)"
  shows "\<exists>st'. set_input_device devs (int i) st = (Inr (), st')
     \<and> sel_inv st' \<and> selected_event st'
     \<and> input_device_index st' = Some (int i)
     \<and> sample_rate st' = Some (py_trunc (default_samplerate (devs ! i)))
     \<and> load_device (sel_config st') = Inr (Some (int i))"
proof -
  have "i < length devs"
    using assms by (simp add: list_devices_def mem_list_devices_from)
  then show ?thesis
    by (simp add: set_input_device_def query_device_def sel_inv_def save_device_def)
qed

theorem select_listed_device_witness:
  "\<exists>st'. set_input_device
      [\<lparr>dev_name = ''mic'', max_input_channels = 1, hostapi = 0, default_samplerate = 44100, input_ok = True\<rparr>]
      (int 0) \<lparr>input_device_index = None, sample_rate = None, selected_event = False, sel_config = CfgAbsent\<rparr>
      = (Inr (), st')
     \<and> sel_inv st' \<and> selected_event st'
     \<and> input_device_index st' = Some (int 0)
     \<and> sample_rate st' = Some (py_trunc (default_samplerate
          ([\<lparr>dev_name = ''mic'', max_input_channels = 1, hostapi = 0, default_samplerate = 44100, input_ok = True\<rparr>] ! 0)))
     \<and> load_device (sel_config st') = Inr (Some (int 0))"
  by (rule select_listed_device [of 0 "''mic''"]) (simp add: list_devices_def)

text \<open>
  C11: a query that fails (a persisted or listed index whose device is gone)
  leaves the selection half-written: the index is set and persisted but no
  sample rate is known, against the specification's invariant; the persisted
  index makes the next start fail the same way.
\<close>

theorem failed_select_breaks_inv:
  assumes "sel_inv st" and "input_device_index st = None"
    and "\<not> (0 \<le> i \<and> nat i < length devs)"
  shows "fst (set_input_device devs i st) = Inl PortAudioError
     \<and> \<not> sel_inv (snd (set_input_device devs i st))
     \<and> load_device (sel_config (snd (set_input_device devs i st))) = Inr (Some i)"
  using assms
  by (simp add: set_input_device_def query_device_def sel_inv_def save_device_def)

theorem failed_select_breaks_inv_witness:
  "fst (set_input_device [] 3 \<lparr>input_device_index = None, sample_rate = None,
        selected_event = False, sel_config = CfgAbsent\<rparr>) = Inl PortAudioError
   \<and> \<not> sel_inv (snd (set_input_device [] 3 \<lparr>input_device_index = None, sample_rate = None,
        selected_event = False, sel_config = CfgAbsent\<rparr>))
   \<and> load_device (sel_config (snd (set_input_device [] 3 \<lparr>input_device_index = None,
        sample_rate = None, selected_event = False, sel_config = CfgAbsent\<rparr>))) = Inr (Some 3)"
  by (rule failed_select_breaks_inv) (simp_all add: sel_inv_def)

end
