(* ===== verification/Pipeline.thy ===== *)
theory Pipeline
  imports AudioBuffer Resample Wav Dispatch Devices
begin

text \<open>
  The running program of \<open>src/live_transcribe.py\<close> as one state machine. Its
  threads are the entry point (lines 239-284), the transcription loop
  \<open>transcribe_loop\<close> (lines 140-175), the recording thread
  \<open>record_audio\<close> (lines 126-136) with the driver's callback
  \<open>audio_callback\<close> (lines 120-123), and the tray thread whose menu runs
  \<open>set_input_device\<close>, \<open>toggle_pause\<close> (lines 186-190) and Quit
  (lines 193-201). Each thread is a program counter in the state record; an
  event is one atomic step of one thread, or an answer of the environment
  (the audio driver, the transcription service, the operating system's
  device table). \<open>step\<close> gives the state after an event, or \<open>None\<close> when the
  event cannot happen in that state (the thread is blocked or elsewhere).
  The request to the transcription service is the ghost variable
  \<open>requests\<close>; \<open>pushed\<close> and \<open>windows\<close> record every block the callback
  has put and every window the loop has taken, in order.
\<close>

section \<open>State\<close>

text \<open>
  The transcription loop: at the top of \<open>while True\<close>, in \<open>sleep(0.5)\<close>,
  collecting the window with \<open>audio_q.get()\<close>, waiting for the answer to the
  request it sent, or ended by an uncaught exception.
\<close>

datatype loop_pc =
    LoopTop
  | Sleeping
  | Collecting "block list"
  | Requesting "byte list"
  | LoopDead py_error

text \<open>
  The entry point after the threads are started: about to test
  \<open>input_device_index is None\<close>, blocked in \<open>selected_event.wait()\<close>, in
  \<open>app.exec_()\<close>, or finished (the process has ended).
\<close>

datatype main_pc = MainCheck | MainWaiting | MainRunning | MainExited

text \<open>
  The recording thread: not started, started but the stream not yet open,
  recording with the device and rate the stream was opened with, or dead
  because \<open>sd.InputStream\<close> raised.
\<close>

datatype rec_pc = RecNotStarted | RecStarting | RecRunning int int | RecFailed

record sys =
  devs :: "device_info list"
  sel :: selection
  paused :: bool
  pause_label :: string
  audio_q :: "block pyqueue"
  menu :: "(nat \<times> pystr) list"
  main_pc :: main_pc
  rec_pc :: rec_pc
  loop_pc :: loop_pc
  display :: pystr
  pushed :: "block list"
  windows :: "block list list"
  requests :: "byte list list"

text \<open>The constants of the code: frames per block, blocks per window, target rate.\<close>

definition blocksize :: nat where
  "blocksize = 4000"

definition window_len :: nat where
  "window_len = 20"

definition target_rate :: int where
  "target_rate = 16000"

section \<open>Start-up\<close>

text \<open>
  The entry point from the window's creation to the start of the two
  background threads: the overlay shows the waiting text, a saved device is
  restored, and any exception (an unreadable configuration, a failing
  device query) is caught by the outer \<open>except Exception\<close>, which prints it
  and lets the process end. The tray thread builds its device menu once.
\<close>

definition start_threads :: "sys \<Rightarrow> sys" where
  "start_threads s =
     s\<lparr>menu := list_devices (devs s), loop_pc := LoopTop, main_pc := MainCheck\<rparr>"

definition boot :: "device_info list \<Rightarrow> cfg \<Rightarrow> sys" where
  "boot ds c =
     (let s0 = \<lparr>devs = ds,
                sel = \<lparr>input_device_index = None, sample_rate = None,
                       selected_event = False, sel_config = c\<rparr>,
                paused = False, pause_label = ''Pause'', audio_q = [], menu = [],
                main_pc = MainCheck, rec_pc = RecNotStarted, loop_pc = LoopTop,
                display = msg_waiting, pushed = [], windows = [], requests = []\<rparr> in
      case load_device c of
        Inl e \<Rightarrow> s0\<lparr>main_pc := MainExited\<rparr>
      | Inr None \<Rightarrow> start_threads s0
      | Inr (Some i) \<Rightarrow>
          (case set_input_device ds i (sel s0) of
             (Inl e, st) \<Rightarrow> s0\<lparr>sel := st, main_pc := MainExited\<rparr>
           | (Inr u, st) \<Rightarrow> start_threads (s0\<lparr>sel := st\<rparr>)))"

section \<open>Opening the stream and building a request\<close>

text \<open>
  \<open>sd.InputStream(samplerate=SAMPLE_RATE, device=input_device_index, ...)\<close>
  reads both globals when the recording thread opens it. It opens for a
  device of the table with an input channel that passes the input probe, at
  a positive rate (PortAudio rejects a rate of 0); otherwise it raises and
  the thread dies. An unset rate makes \<open>sounddevice\<close> use the device's
  default rate. An unset device would mean the default device; that case is
  not reachable, because the thread only starts with a device
  (\<open>no_device_idle\<close>), and it is modelled as a failure.
\<close>

definition open_stream :: "device_info list \<Rightarrow> selection \<Rightarrow> rec_pc" where
  "open_stream ds st =
     (case (input_device_index st, sample_rate st) of
        (Some i, rate) \<Rightarrow>
          (case query_device ds i of
             Inl e \<Rightarrow> RecFailed
           | Inr d \<Rightarrow>
               (let r = (case rate of None \<Rightarrow> py_trunc (default_samplerate d) | Some r \<Rightarrow> r) in
                if 0 < max_input_channels d \<and> input_ok d \<and> 0 < r then RecRunning i r else RecFailed))
      | (None, rate) \<Rightarrow> RecFailed)"

text \<open>
  Lines 148-160: concatenate the window, resample it unless
  \<open>SAMPLE_RATE == 16000\<close> (an unset rate reaches the division as \<open>None\<close>
  and raises \<open>TypeError\<close>), and write the WAV body. None of this is inside
  the \<open>try\<close>: an exception ends the loop's thread.
\<close>

definition build_request :: "resampler \<Rightarrow> int option \<Rightarrow> block list \<Rightarrow> py_error + byte list" where
  "build_request rs rate frames =
     (let audio_chunk = concat frames in
      case (case rate of
              None \<Rightarrow> Inl TypeError
            | Some r \<Rightarrow> if r \<noteq> target_rate then resample_audio rs audio_chunk r target_rate
                        else Inr audio_chunk) of
        Inl e \<Rightarrow> Inl e
      | Inr chunk \<Rightarrow> wav_encode chunk)"

section \<open>Events and steps\<close>

datatype event =
    Callback block
  | RecOpen
  | MainStep
  | SelectDevice nat
  | TogglePause
  | Quit
  | DevicesChange "device_info list"
  | LoopStep
  | ApiReturn api_result

definition tray_running :: "sys \<Rightarrow> bool" where
  "tray_running s \<longleftrightarrow> main_pc s \<noteq> MainExited"

text \<open>
  One step of the transcription loop (lines 142-160): the pause test at the
  top of the loop, the end of the sleep, one \<open>audio_q.get()\<close> (blocked on an
  empty queue), and building and sending the request once twenty blocks are
  taken.
\<close>

definition loop_step :: "resampler \<Rightarrow> sys \<Rightarrow> sys option" where
  "loop_step rs s =
     (case loop_pc s of
        LoopTop \<Rightarrow> Some (s\<lparr>loop_pc := (if paused s then Sleeping else Collecting [])\<rparr>)
      | Sleeping \<Rightarrow> Some (s\<lparr>loop_pc := LoopTop\<rparr>)
      | Collecting fs \<Rightarrow>
          if length fs < window_len then
            (case q_get (audio_q s) of
               None \<Rightarrow> None
             | Some (b, q) \<Rightarrow> Some (s\<lparr>audio_q := q, loop_pc := Collecting (fs @ [b])\<rparr>))
          else
            (case build_request rs (sample_rate (sel s)) fs of
               Inl e \<Rightarrow> Some (s\<lparr>loop_pc := LoopDead e, windows := windows s @ [fs]\<rparr>)
             | Inr body \<Rightarrow> Some (s\<lparr>loop_pc := Requesting body, windows := windows s @ [fs],
                                     requests := requests s @ [body]\<rparr>))
      | Requesting body \<Rightarrow> None
      | LoopDead e \<Rightarrow> None)"

text \<open>
  Line 189 assigns \<open>item.text\<close> of the \<open>MenuItem\<close> pystray passes to the
  action. pystray's menu items are immutable: \<open>text\<close> is a property without
  a setter, so the assignment raises \<open>AttributeError\<close> and leaves the
  entry as it was.
\<close>

definition menu_item_set_text :: "string \<Rightarrow> py_error + string" where
  "menu_item_set_text new_text = Inl AttributeError"

text \<open>
  \<open>toggle_pause\<close> flips the flag (line 188); the relabelling of line 189
  raises, so the \<open>update_text\<close> of line 190 is not reached. pystray's
  handler logs the exception and the tray keeps running. The action touches
  neither the queue nor the loop.
\<close>

definition toggle_pause :: "sys \<Rightarrow> (py_error + unit) \<times> sys" where
  "toggle_pause s =
     (let p = \<not> paused s;
          s1 = s\<lparr>paused := p\<rparr> in
      case menu_item_set_text (if p then ''Resume'' else ''Pause'') of
        Inl e \<Rightarrow> (Inl e, s1)
      | Inr lbl \<Rightarrow> (Inr (), s1\<lparr>pause_label := lbl, display := (if p then msg_paused else msg_resumed)\<rparr>))"

fun step :: "resampler \<Rightarrow> sys \<Rightarrow> event \<Rightarrow> sys option" where
  "step rs s (Callback b) =
     (case rec_pc s of
        RecRunning i r \<Rightarrow>
          if main_pc s \<noteq> MainExited \<and> length b = blocksize
          then Some (s\<lparr>audio_q := audio_callback b (audio_q s), pushed := pushed s @ [b]\<rparr>)
          else None
      | _ \<Rightarrow> None)"
| "step rs s RecOpen =
     (if rec_pc s = RecStarting \<and> main_pc s \<noteq> MainExited
      then Some (s\<lparr>rec_pc := open_stream (devs s) (sel s)\<rparr>) else None)"
| "step rs s MainStep =
     (case main_pc s of
        MainCheck \<Rightarrow>
          if input_device_index (sel s) = None then Some (s\<lparr>main_pc := MainWaiting\<rparr>)
          else Some (s\<lparr>main_pc := MainRunning, rec_pc := RecStarting\<rparr>)
      | MainWaiting \<Rightarrow>
          if selected_event (sel s) then Some (s\<lparr>main_pc := MainRunning, rec_pc := RecStarting\<rparr>)
          else None
      | _ \<Rightarrow> None)"
| "step rs s (SelectDevice i) =
     (if tray_running s \<and> i \<in> fst ` set (menu s)
      then Some (s\<lparr>sel := snd (set_input_device (devs s) (int i) (sel s))\<rparr>) else None)"
| "step rs s TogglePause =
     (if tray_running s then Some (snd (toggle_pause s)) else None)"
| "step rs s Quit =
     (if main_pc s = MainRunning then Some (s\<lparr>main_pc := MainExited\<rparr>)
      else if tray_running s then Some s else None)"
| "step rs s (DevicesChange ds) =
     (if main_pc s \<noteq> MainExited then Some (s\<lparr>devs := ds\<rparr>) else None)"
| "step rs s LoopStep =
     (if main_pc s \<noteq> MainExited then loop_step rs s else None)"
| "step rs s (ApiReturn r) =
     (case loop_pc s of
        Requesting body \<Rightarrow>
          if main_pc s \<noteq> MainExited
          then Some (s\<lparr>display := handle_response r, loop_pc := LoopTop\<rparr>) else None
      | _ \<Rightarrow> None)"

fun run :: "resampler \<Rightarrow> sys \<Rightarrow> event list \<Rightarrow> sys option" where
  "run rs s [] = Some s"
| "run rs s (e # es) = (case step rs s e of None \<Rightarrow> None | Some s' \<Rightarrow> run rs s' es)"

inductive reachable :: "resampler \<Rightarrow> sys \<Rightarrow> bool" for rs where
  boot: "reachable rs (boot ds c)"
| step: "reachable rs s \<Longrightarrow> step rs s e = Some s' \<Longrightarrow> reachable rs s'"

section \<open>Invariants and example states\<close>

text \<open>The blocks the loop has taken for the window it is collecting.\<close>

definition collected :: "loop_pc \<Rightarrow> block list" where
  "collected p = (case p of Collecting fs \<Rightarrow> fs | _ \<Rightarrow> [])"

text \<open>
  No block is lost, duplicated or reordered between the callback and the
  requests: the windows taken, the blocks of the window in progress and the
  queue are, in this order, exactly the blocks pushed; every window has
  twenty blocks and every block the driver delivered has 4000 frames.
\<close>

definition fifo_inv :: "sys \<Rightarrow> bool" where
  "fifo_inv s \<longleftrightarrow>
     concat (windows s) @ collected (loop_pc s) @ audio_q s = pushed s
     \<and> uniform window_len (windows s) \<and> length (collected (loop_pc s)) \<le> window_len
     \<and> uniform blocksize (pushed s)"

text \<open>
  Nothing is captured before a device is chosen: the event is only set with
  a device, the recording thread only starts with one (and after the entry
  point passed its wait), and no block exists before it starts; each
  request belongs to a window.
\<close>

definition idle_inv :: "sys \<Rightarrow> bool" where
  "idle_inv s \<longleftrightarrow>
     (selected_event (sel s) \<longrightarrow> input_device_index (sel s) \<noteq> None)
     \<and> (rec_pc s \<noteq> RecNotStarted \<longrightarrow> input_device_index (sel s) \<noteq> None
          \<and> main_pc s \<in> {MainRunning, MainExited})
     \<and> (rec_pc s = RecNotStarted \<longrightarrow> pushed s = [])
     \<and> length (requests s) \<le> length (windows s)"

text \<open>Every request body sent so far is a readable 16 kHz mono WAV file.\<close>

definition wav_inv :: "sys \<Rightarrow> bool" where
  "wav_inv s \<longleftrightarrow> (\<forall>b \<in> set (requests s). \<exists>xs. wav_decode b = Some (1, 2, 16000, xs))"

text \<open>
  Example data for the witnesses: two usable microphones with different
  default rates, a resampler that keeps the length contract, and a running
  session with twenty queued blocks waiting for an answer; \<open>saved_mic\<close> is
  a configuration that restores the first microphone.
\<close>

definition two_mics :: "device_info list" where
  "two_mics =
     [\<lparr>dev_name = ''A'', max_input_channels = 1, hostapi = 0, default_samplerate = 44100, input_ok = True\<rparr>,
      \<lparr>dev_name = ''B'', max_input_channels = 1, hostapi = 0, default_samplerate = 48000, input_ok = True\<rparr>]"

definition saved_mic :: cfg where
  "saved_mic = CfgObject [''device_index'' \<mapsto> JInt 0]"

definition zero_resampler :: resampler where
  "zero_resampler xs n = replicate n 0"

definition demo_session :: sys where
  "demo_session =
     \<lparr>devs = two_mics,
      sel = \<lparr>input_device_index = Some 0, sample_rate = Some 16000,
             selected_event = True, sel_config = CfgObject [''device_index'' \<mapsto> JInt 0]\<rparr>,
      paused = False, pause_label = ''Pause'', audio_q = replicate 20 (replicate 4000 0),
      menu = [(0, ''A''), (1, ''B'')], main_pc = MainRunning, rec_pc = RecRunning 0 16000,
      loop_pc = Requesting [], display = msg_waiting, pushed = replicate 20 (replicate 4000 0),
      windows = [], requests = []\<rparr>"

section \<open>Steps and runs\<close>

lemma collected_simps [simp]:
  "collected (Collecting fs) = fs" "collected LoopTop = []" "collected Sleeping = []"
  "collected (Requesting b) = []" "collected (LoopDead e) = []"
  by (simp_all add: collected_def)

lemma loop_step_cases:
  assumes "loop_step rs s = Some s'"
  obtains (top) "loop_pc s = LoopTop" "s' = s\<lparr>loop_pc := (if paused s then Sleeping else Collecting [])\<rparr>"
  | (sleep) "loop_pc s = Sleeping" "s' = s\<lparr>loop_pc := LoopTop\<rparr>"
  | (get) fs b q where "loop_pc s = Collecting fs" "length fs < window_len" "audio_q s = b # q"
      "s' = s\<lparr>audio_q := q, loop_pc := Collecting (fs @ [b])\<rparr>"
  | (dead) fs e where "loop_pc s = Collecting fs" "\<not> length fs < window_len"
      "build_request rs (sample_rate (sel s)) fs = Inl e"
      "s' = s\<lparr>loop_pc := LoopDead e, windows := windows s @ [fs]\<rparr>"
  | (send) fs body where "loop_pc s = Collecting fs" "\<not> length fs < window_len"
      "build_request rs (sample_rate (sel s)) fs = Inr body"
      "s' = s\<lparr>loop_pc := Requesting body, windows := windows s @ [fs], requests := requests s @ [body]\<rparr>"
  using assms
  by (auto simp: loop_step_def q_get_def split: loop_pc.splits if_splits list.splits sum.splits)

lemma step_cases:
  assumes "step rs s e = Some s'"
  obtains (callback) b i r where "e = Callback b" "rec_pc s = RecRunning i r" "length b = blocksize"
      "s' = s\<lparr>audio_q := audio_callback b (audio_q s), pushed := pushed s @ [b]\<rparr>"
  | (loop) "e = LoopStep" "loop_step rs s = Some s'"
  | (api) body r where "e = ApiReturn r" "loop_pc s = Requesting body"
      "s' = s\<lparr>display := handle_response r, loop_pc := LoopTop\<rparr>"
  | (other) "pushed s' = pushed s" "windows s' = windows s" "requests s' = requests s"
      "audio_q s' = audio_q s" "loop_pc s' = loop_pc s" "paused s' = paused s \<or> e = TogglePause"
  using assms
  by (cases e)
     (auto simp: toggle_pause_def menu_item_set_text_def Let_def split: rec_pc.splits if_splits main_pc.splits loop_pc.splits)

lemma fifo_inv_step:
  assumes "fifo_inv s" and "step rs s e = Some s'"
  shows "fifo_inv s'"
  using assms(2)
proof (cases rule: step_cases)
  case (callback b i r)
  then show ?thesis
    using assms(1) by (simp add: fifo_inv_def audio_callback_def q_put_def)
next
  case loop
  from loop(2) show ?thesis
  proof (cases rule: loop_step_cases)
    case (get fs b q)
    then show ?thesis using assms(1) by (simp add: fifo_inv_def)
  next
    case (dead fs e)
    then show ?thesis using assms(1) by (simp add: fifo_inv_def)
  next
    case (send fs body)
    then show ?thesis using assms(1) by (simp add: fifo_inv_def)
  qed (use assms(1) in \<open>simp_all add: fifo_inv_def\<close>)
next
  case (api body r)
  then show ?thesis using assms(1) by (simp add: fifo_inv_def)
next
  case other
  then show ?thesis using assms(1) by (simp add: fifo_inv_def)
qed

lemma fifo_inv_boot: "fifo_inv (boot ds c)"
  by (simp add: boot_def start_threads_def fifo_inv_def Let_def split: sum.splits option.splits prod.splits)

lemma reachable_fifo_inv: "reachable rs s \<Longrightarrow> fifo_inv s"
  by (induction rule: reachable.induct) (auto intro: fifo_inv_boot fifo_inv_step)

text \<open>
  C1: in every reachable state the blocks the loop has taken as windows, the
  blocks of the window in progress and the queue are, in this order, the
  blocks the callback pushed: nothing is lost, duplicated or reordered.
  Every window has twenty blocks and every block 4000 frames.
\<close>

theorem reachable_fifo:
  assumes "reachable rs s"
  shows "concat (windows s) @ collected (loop_pc s) @ audio_q s = pushed s
     \<and> uniform window_len (windows s) \<and> uniform blocksize (pushed s)"
  using reachable_fifo_inv [OF assms] by (simp add: fifo_inv_def)

theorem reachable_fifo_witness:
  "concat (windows (boot two_mics CfgAbsent)) @ collected (loop_pc (boot two_mics CfgAbsent))
     @ audio_q (boot two_mics CfgAbsent) = pushed (boot two_mics CfgAbsent)
   \<and> uniform window_len (windows (boot two_mics CfgAbsent))
   \<and> uniform blocksize (pushed (boot two_mics CfgAbsent))"
  by (rule reachable_fifo [OF reachable.boot [of zero_resampler]])

lemma run_append:
  "run rs s (es1 @ es2) = (case run rs s es1 of None \<Rightarrow> None | Some s' \<Rightarrow> run rs s' es2)"
  by (induction es1 arbitrary: s) (simp_all split: option.splits)

lemma reachable_run: "reachable rs s \<Longrightarrow> run rs s es = Some s' \<Longrightarrow> reachable rs s'"
proof (induction es arbitrary: s)
  case Nil
  then show ?case by simp
next
  case (Cons e es)
  then obtain s1 where "step rs s e = Some s1" and "run rs s1 es = Some s'"
    by (auto split: option.splits)
  with Cons show ?case
    by (blast intro: reachable.step)
qed

lemma run_callbacks:
  assumes "rec_pc s = RecRunning i r" and "main_pc s \<noteq> MainExited" and "length b = blocksize"
  shows "run rs s (replicate k (Callback b)) =
           Some (s\<lparr>audio_q := audio_q s @ replicate k b, pushed := pushed s @ replicate k b\<rparr>)"
  using assms
proof (induction k arbitrary: s)
  case 0
  then show ?case by simp
next
  case (Suc k)
  let ?s1 = "s\<lparr>audio_q := audio_q s @ [b], pushed := pushed s @ [b]\<rparr>"
  have "step rs s (Callback b) = Some ?s1"
    using Suc.prems by (simp add: audio_callback_def q_put_def)
  moreover have "run rs ?s1 (replicate k (Callback b)) =
      Some (s\<lparr>audio_q := audio_q s @ b # replicate k b, pushed := pushed s @ b # replicate k b\<rparr>)"
    using Suc.IH [of ?s1] Suc.prems by simp
  ultimately show ?case
    by (simp add: replicate_app_Cons_same)
qed

lemma run_collect:
  assumes "loop_pc s = Collecting fs" and "main_pc s \<noteq> MainExited"
    and "length fs + k \<le> window_len" and "k \<le> length (audio_q s)"
  shows "run rs s (replicate k LoopStep) =
           Some (s\<lparr>audio_q := drop k (audio_q s), loop_pc := Collecting (fs @ take k (audio_q s))\<rparr>)"
  using assms
proof (induction k arbitrary: s fs)
  case 0
  then show ?case by simp
next
  case (Suc k)
  then obtain b q where q: "audio_q s = b # q"
    by (cases "audio_q s") auto
  let ?s1 = "s\<lparr>audio_q := q, loop_pc := Collecting (fs @ [b])\<rparr>"
  have step1: "step rs s LoopStep = Some ?s1"
    using Suc.prems q by (simp add: loop_step_def)
  have "run rs ?s1 (replicate k LoopStep) =
          Some (s\<lparr>audio_q := drop k q, loop_pc := Collecting (fs @ b # take k q)\<rparr>)"
    using Suc.IH [of ?s1 "fs @ [b]"] Suc.prems q by simp
  then show ?case
    using step1 q by simp
qed

lemma build_request_ok:
  assumes "0 < r" and "resampler_ok rs" and "length (concat fs) = blocksize * window_len"
  shows "\<exists>body. build_request rs (Some r) fs = Inr body"
proof (cases "r = target_rate")
  case True
  then show ?thesis
    using assms(3) by (simp add: build_request_def wav_encode_def blocksize_def window_len_def)
next
  case False
  let ?n = "py_round_div (int (length (concat fs)) * target_rate) r"
  have "0 \<le> ?n"
    using assms(1) by (simp add: py_round_div_nonneg target_rate_def)
  have "int (length (concat fs)) * target_rate div r \<le> int (length (concat fs)) * target_rate"
    using assms(3) by (intro int_div_le_self) (simp add: target_rate_def blocksize_def window_len_def)
  then have "?n \<le> 1280000001"
    using py_round_div_le [of "int (length (concat fs)) * target_rate" r] assms(1,3)
    by (simp add: target_rate_def blocksize_def window_len_def)
  then have fits: "36 + 2 * nat ?n < 2 ^ 32"
    by simp
  show ?thesis
    using False resample_audio_Inr [OF assms(1), of target_rate rs "concat fs"] assms(2) fits
    by (simp add: build_request_def wav_encode_def resampler_ok_def target_rate_def)
qed

lemma finish_window:
  assumes "loop_pc s = Collecting fs" and "main_pc s \<noteq> MainExited"
    and "length fs + k = window_len" and "k \<le> length (audio_q s)"
    and "sample_rate (sel s) = Some r" and "0 < r" and "resampler_ok rs"
    and "uniform blocksize fs" and "uniform blocksize (audio_q s)"
  shows "\<exists>body. run rs s (replicate k LoopStep @ [LoopStep]) =
     Some (s\<lparr>audio_q := drop k (audio_q s), loop_pc := Requesting body,
             windows := windows s @ [fs @ take k (audio_q s)], requests := requests s @ [body]\<rparr>)"
proof -
  let ?q = "audio_q s" and ?w = "fs @ take k (audio_q s)"
  let ?s1 = "s\<lparr>audio_q := drop k ?q, loop_pc := Collecting ?w\<rparr>"
  have collect: "run rs s (replicate k LoopStep) = Some ?s1"
    using run_collect [of s fs k rs] assms(1-4) by simp
  have "uniform blocksize (take k ?q)"
    using assms(9) by (rule uniform_take)
  then have "length (concat ?w) = blocksize * (k + length fs)"
    using assms(4,8) by (simp add: min_def algebra_simps)
  then have "length (concat ?w) = blocksize * window_len"
    using assms(3) by (simp add: add.commute)
  then obtain body where body: "build_request rs (Some r) ?w = Inr body"
    using build_request_ok [OF assms(6,7)] by blast
  have "step rs ?s1 LoopStep =
      Some (?s1\<lparr>loop_pc := Requesting body, windows := windows s @ [?w],
                 requests := requests s @ [body]\<rparr>)"
    using assms(2-5) body by (simp add: loop_step_def)
  then have "run rs s (replicate k LoopStep @ [LoopStep]) =
      Some (s\<lparr>audio_q := drop k (audio_q s), loop_pc := Requesting body,
             windows := windows s @ [?w], requests := requests s @ [body]\<rparr>)"
    using collect run_append [of rs s "replicate k LoopStep" "[LoopStep]"] by simp
  then show ?thesis
    by blast
qed

text \<open>
  C6: a failed request does not stop the pipeline. From a loop waiting for
  an answer, with the pause off, a known positive sample rate and at least
  twenty queued blocks, the error answer shows the error marker, and
  twenty-two steps of the loop later the next window (the next twenty blocks
  in arrival order) has been taken and its request sent.
\<close>

theorem failure_then_next_window:
  assumes "loop_pc s = Requesting body" and "main_pc s \<noteq> MainExited" and "\<not> paused s"
    and "window_len \<le> length (audio_q s)" and "uniform blocksize (audio_q s)"
    and "sample_rate (sel s) = Some r" and "0 < r" and "resampler_ok rs"
  shows "\<exists>s' body'.
     run rs s (ApiReturn ApiException # LoopStep # replicate window_len LoopStep @ [LoopStep]) = Some s'
     \<and> display s' = msg_api_error \<and> loop_pc s' = Requesting body'
     \<and> windows s' = windows s @ [take window_len (audio_q s)]
     \<and> requests s' = requests s @ [body'] \<and> audio_q s' = drop window_len (audio_q s)"
proof -
  let ?s2 = "s\<lparr>display := msg_api_error, loop_pc := Collecting []\<rparr>"
  have first: "run rs s [ApiReturn ApiException, LoopStep] = Some ?s2"
    using assms(1-3) by (simp add: handle_response_def loop_step_def)
  obtain body' where
    "run rs ?s2 (replicate window_len LoopStep @ [LoopStep]) =
       Some (?s2\<lparr>audio_q := drop window_len (audio_q s), loop_pc := Requesting body',
             windows := windows s @ [take window_len (audio_q s)], requests := requests s @ [body']\<rparr>)"
    using finish_window [of ?s2 "[]" window_len r rs] assms(2,4-8) by auto
  then show ?thesis
    using first run_append [of rs s "[ApiReturn ApiException, LoopStep]"] by auto
qed

text \<open>
  C21: the pause flag is read only at the top of the loop. Pausing while a
  window is being collected does not stop it: the window is completed and
  its request is sent with the pause on, one request after the user paused,
  and the overlay does not change.
\<close>

theorem pause_in_flight_window:
  assumes "loop_pc s = Collecting fs" and "main_pc s \<noteq> MainExited" and "\<not> paused s"
    and "length fs + k = window_len" and "k \<le> length (audio_q s)"
    and "sample_rate (sel s) = Some r" and "0 < r" and "resampler_ok rs"
    and "uniform blocksize fs" and "uniform blocksize (audio_q s)"
  shows "\<exists>s' body. run rs s (TogglePause # replicate k LoopStep @ [LoopStep]) = Some s'
     \<and> paused s' \<and> display s' = display s \<and> loop_pc s' = Requesting body
     \<and> requests s' = requests s @ [body]"
proof -
  let ?s1 = "snd (toggle_pause s)"
  have s1: "paused ?s1" "display ?s1 = display s" "loop_pc ?s1 = Collecting fs"
    "main_pc ?s1 \<noteq> MainExited" "audio_q ?s1 = audio_q s" "sel ?s1 = sel s"
    "requests ?s1 = requests s"
    using assms(1-3) by (simp_all add: toggle_pause_def menu_item_set_text_def)
  obtain body where
    "run rs ?s1 (replicate k LoopStep @ [LoopStep]) =
       Some (?s1\<lparr>audio_q := drop k (audio_q s), loop_pc := Requesting body,
             windows := windows ?s1 @ [fs @ take k (audio_q s)], requests := requests s @ [body]\<rparr>)"
    using finish_window [of ?s1 fs k r rs] s1 assms(4-10) by auto
  then show ?thesis
    using s1 assms(2) by (auto simp: tray_running_def)
qed

lemma paused_step:
  assumes "step rs s e = Some s'" and "paused s" and "loop_pc s \<in> {LoopTop, Sleeping}"
    and "e \<noteq> TogglePause"
  shows "paused s' \<and> loop_pc s' \<in> {LoopTop, Sleeping} \<and> windows s' = windows s
     \<and> requests s' = requests s \<and> (\<exists>bs. audio_q s' = audio_q s @ bs \<and> pushed s' = pushed s @ bs)"
  using assms(1)
proof (cases rule: step_cases)
  case (callback b i r)
  then show ?thesis
    using assms(2,3) by (simp add: audio_callback_def q_put_def)
next
  case loop
  from loop(2) show ?thesis
    by (cases rule: loop_step_cases) (use assms(2,3) in auto)
next
  case (api body r)
  then show ?thesis
    using assms(3) by simp
next
  case other
  then show ?thesis
    using assms(2-4) by auto
qed

text \<open>
  C7: while paused, with the loop at its pause test or asleep, no event other
  than another toggle takes a block or sends a request: the queue only grows
  by the blocks the callback pushes, in order, and the loop stays paused.
\<close>

theorem pause_holds_buffer:
  assumes "paused s" and "loop_pc s \<in> {LoopTop, Sleeping}"
    and "run rs s es = Some s'" and "TogglePause \<notin> set es"
  shows "paused s' \<and> windows s' = windows s \<and> requests s' = requests s
     \<and> (\<exists>bs. audio_q s' = audio_q s @ bs \<and> pushed s' = pushed s @ bs)"
  using assms
proof (induction es arbitrary: s)
  case Nil
  then show ?case by simp
next
  case (Cons e es)
  then obtain s1 where s1: "step rs s e = Some s1" and rest: "run rs s1 es = Some s'"
    by (auto split: option.splits)
  have one: "paused s1 \<and> loop_pc s1 \<in> {LoopTop, Sleeping} \<and> windows s1 = windows s
     \<and> requests s1 = requests s \<and> (\<exists>bs. audio_q s1 = audio_q s @ bs \<and> pushed s1 = pushed s @ bs)"
  proof -
    have "e \<noteq> TogglePause"
      using Cons.prems(4) by auto
    then show ?thesis
      using paused_step [OF s1] Cons.prems(1,2) by blast
  qed
  then have "paused s' \<and> windows s' = windows s1 \<and> requests s' = requests s1
     \<and> (\<exists>bs. audio_q s' = audio_q s1 @ bs \<and> pushed s' = pushed s1 @ bs)"
    using Cons.IH [OF _ _ rest] Cons.prems by simp
  with one show ?case
    by auto
qed

lemma open_stream_started: "open_stream ds st \<noteq> RecNotStarted"
  by (simp add: open_stream_def Let_def split: option.splits sum.splits)

lemma idle_inv_step:
  assumes "idle_inv s" and "step rs s e = Some s'"
  shows "idle_inv s'"
proof (cases e)
  case LoopStep
  with assms(2) have "loop_step rs s = Some s'"
    by (simp split: if_splits)
  then show ?thesis
    by (cases rule: loop_step_cases) (use assms(1) in \<open>auto simp: idle_inv_def\<close>)
qed (use assms in \<open>auto simp: idle_inv_def set_input_device_index toggle_pause_def menu_item_set_text_def Let_def
      open_stream_started split: rec_pc.splits if_splits main_pc.splits loop_pc.splits\<close>)

lemma idle_inv_boot: "idle_inv (boot ds c)"
  by (auto simp: boot_def start_threads_def idle_inv_def Let_def set_input_device_def
      split: sum.splits option.splits prod.splits)

lemma reachable_idle_inv: "reachable rs s \<Longrightarrow> idle_inv s"
  by (induction rule: reachable.induct) (auto intro: idle_inv_boot idle_inv_step)

text \<open>
  C9: with no device restored and none selected, the recording thread has
  not started, nothing has been captured or queued, no window has been taken
  and no request sent, in every reachable state.
\<close>

theorem no_device_idle:
  assumes "reachable rs s" and "input_device_index (sel s) = None"
  shows "rec_pc s = RecNotStarted \<and> audio_q s = [] \<and> collected (loop_pc s) = []
     \<and> windows s = [] \<and> requests s = []"
proof -
  have idle: "idle_inv s" and fifo: "fifo_inv s"
    using assms(1) by (simp_all add: reachable_idle_inv reachable_fifo_inv)
  then have rec: "rec_pc s = RecNotStarted" and "pushed s = []"
    using assms(2) by (auto simp: idle_inv_def)
  with fifo have "concat (windows s) = []" and "collected (loop_pc s) = []" and "audio_q s = []"
    and "uniform window_len (windows s)"
    by (simp_all add: fifo_inv_def)
  then have "windows s = []"
    by (cases "windows s") (auto simp: window_len_def)
  moreover have "length (requests s) \<le> length (windows s)"
    using idle by (simp add: idle_inv_def)
  ultimately show ?thesis
    using rec \<open>collected (loop_pc s) = []\<close> \<open>audio_q s = []\<close> by simp
qed

lemma rec_running_step:
  assumes "idle_inv s" and "step rs s e = Some s'" and "rec_pc s = RecRunning d r"
  shows "rec_pc s' = RecRunning d r"
proof (cases e)
  case LoopStep
  with assms(2) have "loop_step rs s = Some s'"
    by (simp split: if_splits)
  then show ?thesis
    by (cases rule: loop_step_cases) (use assms(3) in simp_all)
qed (use assms in \<open>auto simp: idle_inv_def toggle_pause_def menu_item_set_text_def Let_def
      split: if_splits main_pc.splits loop_pc.splits\<close>)

text \<open>
  C8: once the stream is open, no later event closes or reopens it: every
  run from a reachable state keeps the device and rate it was opened with,
  a device chosen from the menu included.
\<close>

theorem stream_fixed:
  assumes "reachable rs s" and "rec_pc s = RecRunning d r" and "run rs s es = Some s'"
  shows "rec_pc s' = RecRunning d r"
  using assms
proof (induction es arbitrary: s)
  case Nil
  then show ?case by simp
next
  case (Cons e es)
  then obtain s1 where s1: "step rs s e = Some s1" and rest: "run rs s1 es = Some s'"
    by (auto split: option.splits)
  have "rec_pc s1 = RecRunning d r"
    using rec_running_step [OF reachable_idle_inv [OF Cons.prems(1)] s1 Cons.prems(2)] .
  moreover have "reachable rs s1"
    using Cons.prems(1) s1 by (rule reachable.step)
  ultimately show ?case
    using Cons.IH rest by blast
qed

theorem failure_then_next_window_witness:
  "\<exists>s' body'.
     run zero_resampler demo_session
       (ApiReturn ApiException # LoopStep # replicate window_len LoopStep @ [LoopStep]) = Some s'
     \<and> display s' = msg_api_error \<and> loop_pc s' = Requesting body'
     \<and> windows s' = windows demo_session @ [take window_len (audio_q demo_session)]
     \<and> requests s' = requests demo_session @ [body']
     \<and> audio_q s' = drop window_len (audio_q demo_session)"
  by (rule failure_then_next_window [where r = 16000])
     (simp_all add: demo_session_def window_len_def blocksize_def uniform_def
      resampler_ok_def zero_resampler_def)

theorem pause_in_flight_window_witness:
  "\<exists>s' body. run zero_resampler (demo_session\<lparr>loop_pc := Collecting []\<rparr>)
       (TogglePause # replicate 20 LoopStep @ [LoopStep]) = Some s'
     \<and> paused s' \<and> display s' = display (demo_session\<lparr>loop_pc := Collecting []\<rparr>)
     \<and> loop_pc s' = Requesting body
     \<and> requests s' = requests (demo_session\<lparr>loop_pc := Collecting []\<rparr>) @ [body]"
  by (rule pause_in_flight_window [where fs = "[]" and r = 16000])
     (simp_all add: demo_session_def window_len_def blocksize_def uniform_def
      resampler_ok_def zero_resampler_def)

theorem pause_holds_buffer_witness:
  "paused (demo_session\<lparr>paused := True, loop_pc := Sleeping\<rparr>)
   \<and> windows (demo_session\<lparr>paused := True, loop_pc := LoopTop\<rparr>) = windows demo_session
   \<and> requests (demo_session\<lparr>paused := True, loop_pc := LoopTop\<rparr>) = requests demo_session
   \<and> (\<exists>bs. audio_q (demo_session\<lparr>paused := True, loop_pc := Sleeping\<rparr>)
           = audio_q (demo_session\<lparr>paused := True, loop_pc := LoopTop\<rparr>) @ bs
         \<and> pushed (demo_session\<lparr>paused := True, loop_pc := Sleeping\<rparr>)
           = pushed (demo_session\<lparr>paused := True, loop_pc := LoopTop\<rparr>) @ bs)"
  using pause_holds_buffer [of "demo_session\<lparr>paused := True, loop_pc := LoopTop\<rparr>" zero_resampler
      "[LoopStep]" "demo_session\<lparr>paused := True, loop_pc := Sleeping\<rparr>"]
  by (simp add: demo_session_def loop_step_def)

theorem no_device_idle_witness:
  "input_device_index (sel (boot two_mics CfgAbsent)) = None
   \<and> rec_pc (boot two_mics CfgAbsent) = RecNotStarted \<and> audio_q (boot two_mics CfgAbsent) = []
   \<and> collected (loop_pc (boot two_mics CfgAbsent)) = []
   \<and> windows (boot two_mics CfgAbsent) = [] \<and> requests (boot two_mics CfgAbsent) = []"
proof -
  have none: "input_device_index (sel (boot two_mics CfgAbsent)) = None"
    by (simp add: boot_def load_device_def start_threads_def)
  show ?thesis
    using no_device_idle [OF reachable.boot [of zero_resampler] none] none by simp
qed

theorem stream_fixed_witness:
  "rec_pc (the (run zero_resampler (boot two_mics (CfgObject [''device_index'' \<mapsto> JInt 0]))
       [MainStep, RecOpen, SelectDevice 1])) = RecRunning 0 44100"
proof -
  let ?b = "boot two_mics (CfgObject [''device_index'' \<mapsto> JInt 0])"
  let ?s = "the (run zero_resampler ?b [MainStep, RecOpen])"
  have run1: "run zero_resampler ?b [MainStep, RecOpen] = Some ?s"
    by (simp add: two_mics_def boot_def load_device_def set_input_device_def query_device_def
        start_threads_def list_devices_def open_stream_def py_trunc_def Let_def)
  have rec: "rec_pc ?s = RecRunning 0 44100"
    by (simp add: two_mics_def boot_def load_device_def set_input_device_def query_device_def
        start_threads_def list_devices_def open_stream_def py_trunc_def Let_def)
  have reach: "reachable zero_resampler ?s"
    using reachable_run [OF reachable.boot run1] .
  have run2: "run zero_resampler ?s [SelectDevice 1] =
      Some (the (run zero_resampler ?b [MainStep, RecOpen, SelectDevice 1]))"
    by (simp add: two_mics_def boot_def load_device_def set_input_device_def query_device_def
        start_threads_def list_devices_def open_stream_def tray_running_def py_trunc_def Let_def)
  show ?thesis
    using stream_fixed [OF reach rec run2] .
qed

text \<open>
  A run from a start with the saved microphone to the first request: the
  stream opens at 44100 Hz, the driver delivers twenty blocks, and the loop
  takes them and sends the window. No answer arrives on the way.
\<close>

lemma run_to_first_request:
  "\<exists>es s body. run zero_resampler (boot two_mics saved_mic) es = Some s
     \<and> loop_pc s = Requesting body \<and> main_pc s = MainRunning \<and> body \<in> set (requests s)
     \<and> (\<forall>e \<in> set es. \<forall>r. e \<noteq> ApiReturn r)"
proof -
  let ?b = "boot two_mics saved_mic"
  let ?blk = "replicate 4000 (0::int16)"
  define s0 where "s0 = the (run zero_resampler ?b [MainStep, RecOpen])"
  let ?s0 = s0
  have run0: "run zero_resampler ?b [MainStep, RecOpen] = Some ?s0"
    and f0: "rec_pc ?s0 = RecRunning 0 44100" "main_pc ?s0 = MainRunning" "audio_q ?s0 = []"
      "loop_pc ?s0 = LoopTop" "paused ?s0 = False" "sample_rate (sel ?s0) = Some 44100"
    unfolding s0_def
    by (simp_all add: two_mics_def saved_mic_def boot_def load_device_def set_input_device_def
        query_device_def start_threads_def list_devices_def open_stream_def py_trunc_def Let_def)
  let ?s1 = "?s0\<lparr>audio_q := [] @ replicate 20 ?blk, pushed := pushed ?s0 @ replicate 20 ?blk\<rparr>"
  have run1: "run zero_resampler ?s0 (replicate 20 (Callback ?blk)) = Some ?s1"
    using run_callbacks [of ?s0 0 44100 ?blk zero_resampler 20] f0 by (simp add: blocksize_def)
  let ?s2 = "?s1\<lparr>loop_pc := Collecting []\<rparr>"
  have run2: "run zero_resampler ?s1 [LoopStep] = Some ?s2"
    using f0 by (simp add: loop_step_def)
  obtain body where fin: "run zero_resampler ?s2 (replicate 20 LoopStep @ [LoopStep]) =
      Some (?s2\<lparr>audio_q := drop 20 (audio_q ?s2), loop_pc := Requesting body,
              windows := windows ?s2 @ [[] @ take 20 (audio_q ?s2)], requests := requests ?s2 @ [body]\<rparr>)"
    using finish_window [of ?s2 "[]" 20 44100 zero_resampler] f0
    by (auto simp: window_len_def blocksize_def uniform_def resampler_ok_def zero_resampler_def)
  let ?es = "[MainStep, RecOpen] @ replicate 20 (Callback ?blk) @ [LoopStep] @ (replicate 20 LoopStep @ [LoopStep])"
  let ?fin = "?s2\<lparr>audio_q := drop 20 (audio_q ?s2), loop_pc := Requesting body,
              windows := windows ?s2 @ [[] @ take 20 (audio_q ?s2)], requests := requests ?s2 @ [body]\<rparr>"
  have runall: "run zero_resampler ?b ?es = Some ?fin"
    by (simp only: run_append [of _ _ "[MainStep, RecOpen]"] run_append [of _ _ "replicate 20 (Callback ?blk)"]
        run_append [of _ _ "[LoopStep]"] run0 run1 run2 fin option.case)
  have props: "loop_pc ?fin = Requesting body \<and> main_pc ?fin = MainRunning \<and> body \<in> set (requests ?fin)"
    using f0 by simp
  have "\<forall>e \<in> set ?es. \<forall>r. e \<noteq> ApiReturn r"
    by auto
  with runall props show ?thesis
    by blast
qed

section \<open>Error paths and start-up\<close>

lemma dead_loop_stays:
  assumes "loop_pc s = LoopDead e" and "run rs s es = Some s'"
  shows "loop_pc s' = LoopDead e \<and> requests s' = requests s \<and> windows s' = windows s"
  using assms
proof (induction es arbitrary: s)
  case Nil
  then show ?case by simp
next
  case (Cons ev es)
  then obtain s1 where s1: "step rs s ev = Some s1" and rest: "run rs s1 es = Some s'"
    by (auto split: option.splits)
  from s1 have "loop_pc s1 = LoopDead e \<and> requests s1 = requests s \<and> windows s1 = windows s"
  proof (cases rule: step_cases)
    case loop
    then show ?thesis
      using Cons.prems(1) by (simp add: loop_step_def)
  qed (use Cons.prems(1) in simp_all)
  with Cons.IH [OF _ rest] show ?case
    by simp
qed

text \<open>
  C25: an exception while building the request is not caught. A device
  whose default rate truncates to 0 makes the resampler divide by zero: the
  transcription thread ends with \<open>ZeroDivisionError\<close>, and no later event
  sends another request.
\<close>

theorem zero_rate_kills_loop:
  assumes "loop_pc s = Collecting fs" and "length fs = window_len"
    and "main_pc s \<noteq> MainExited" and "sample_rate (sel s) = Some 0"
  shows "\<exists>s'. step rs s LoopStep = Some s' \<and> loop_pc s' = LoopDead ZeroDivisionError
     \<and> (\<forall>es s''. run rs s' es = Some s'' \<longrightarrow>
          loop_pc s'' = LoopDead ZeroDivisionError \<and> requests s'' = requests s)"
proof -
  let ?s' = "s\<lparr>loop_pc := LoopDead ZeroDivisionError, windows := windows s @ [fs]\<rparr>"
  have "step rs s LoopStep = Some ?s'"
    using assms by (simp add: loop_step_def build_request_def resample_audio_def target_rate_def)
  moreover have "\<forall>es s''. run rs ?s' es = Some s'' \<longrightarrow>
      loop_pc s'' = LoopDead ZeroDivisionError \<and> requests s'' = requests s"
    using dead_loop_stays [of ?s' ZeroDivisionError rs] by auto
  ultimately show ?thesis
    by auto
qed

lemma rec_failed_step:
  assumes "idle_inv s" and "step rs s e = Some s'" and "rec_pc s = RecFailed"
  shows "rec_pc s' = RecFailed \<and> pushed s' = pushed s"
proof (cases e)
  case LoopStep
  with assms(2) have "loop_step rs s = Some s'"
    by (simp split: if_splits)
  then show ?thesis
    by (cases rule: loop_step_cases) (use assms(3) in simp_all)
qed (use assms in \<open>auto simp: idle_inv_def toggle_pause_def menu_item_set_text_def Let_def
      split: if_splits main_pc.splits loop_pc.splits\<close>)

text \<open>
  C24: when \<open>sd.InputStream\<close> raises (the selected device vanished or
  fails its probe), the recording thread dies without touching the overlay,
  and no block is ever captured afterwards. The specification asks for an
  error on the display.
\<close>

theorem open_failure_silent:
  assumes "reachable rs s" and "step rs s RecOpen = Some s'" and "rec_pc s' = RecFailed"
    and "run rs s' es = Some s''"
  shows "display s' = display s \<and> rec_pc s'' = RecFailed \<and> pushed s'' = pushed s'"
proof -
  have "display s' = display s"
    using assms(2) by (auto split: if_splits)
  moreover have "reachable rs s'"
    using assms(1,2) by (rule reachable.step)
  then have "rec_pc s'' = RecFailed \<and> pushed s'' = pushed s'"
    using assms(3,4)
  proof (induction es arbitrary: s')
    case Nil
    then show ?case by simp
  next
    case (Cons e es)
    then obtain s1 where s1: "step rs s' e = Some s1" and rest: "run rs s1 es = Some s''"
      by (auto split: option.splits)
    have "rec_pc s1 = RecFailed \<and> pushed s1 = pushed s'"
      using rec_failed_step [OF reachable_idle_inv [OF Cons.prems(1)] s1 Cons.prems(2)] .
    moreover have "reachable rs s1"
      using Cons.prems(1) s1 by (rule reachable.step)
    ultimately show ?case
      using Cons.IH [OF _ _ rest] by simp
  qed
  ultimately show ?thesis
    by simp
qed

text \<open>
  C23: a saved index that names no device of the table stops the program at
  start-up, and the configuration still holds that index, so every later
  start stops the same way until the file is edited.
\<close>

theorem bad_saved_device_never_starts:
  assumes "\<not> (0 \<le> i \<and> nat i < length ds)"
  shows "main_pc (boot ds (CfgObject [''device_index'' \<mapsto> JInt i])) = MainExited
     \<and> sel_config (sel (boot ds (CfgObject [''device_index'' \<mapsto> JInt i])))
         = CfgObject [''device_index'' \<mapsto> JInt i]"
proof -
  have "query_device ds i = Inl PortAudioError"
    using assms by (simp add: query_device_def)
  then show ?thesis
    by (simp add: boot_def load_device_def set_input_device_def save_device_def Let_def)
qed

lemma build_request_wav:
  "build_request rs r fs = Inr body \<Longrightarrow> \<exists>xs. wav_decode body = Some (1, 2, 16000, xs)"
  by (auto simp: build_request_def Let_def dest: wav_encode_decodes
      split: option.splits sum.splits if_splits)

lemma wav_inv_step: "wav_inv s \<Longrightarrow> step rs s e = Some s' \<Longrightarrow> wav_inv s'"
proof (erule step_cases)
  assume "loop_step rs s = Some s'" and inv: "wav_inv s"
  then show ?thesis
    by (cases rule: loop_step_cases) (use inv build_request_wav in \<open>auto simp: wav_inv_def\<close>)
qed (auto simp: wav_inv_def)

lemma wav_inv_boot: "wav_inv (boot ds c)"
  by (simp add: wav_inv_def boot_def start_threads_def Let_def
      split: sum.splits option.splits prod.splits)

lemma reachable_wav_inv: "reachable rs s \<Longrightarrow> wav_inv s"
  by (induction rule: reachable.induct) (auto intro: wav_inv_step wav_inv_boot)

text \<open>
  C27: every request body sent, in every reachable state, is a WAV file that
  a reader decodes as mono, 16-bit samples at 16000 Hz.
\<close>

theorem requests_are_wav:
  assumes "reachable rs s" and "b \<in> set (requests s)"
  shows "\<exists>xs. wav_decode b = Some (1, 2, 16000, xs)"
  using reachable_wav_inv [OF assms(1)] assms(2) by (simp add: wav_inv_def)

theorem bad_saved_device_never_starts_witness:
  "main_pc (boot two_mics (CfgObject [''device_index'' \<mapsto> JInt 5])) = MainExited
   \<and> sel_config (sel (boot two_mics (CfgObject [''device_index'' \<mapsto> JInt 5])))
       = CfgObject [''device_index'' \<mapsto> JInt 5]"
  by (rule bad_saved_device_never_starts) (simp add: two_mics_def)

theorem open_failure_silent_witness:
  "display (the (run zero_resampler (boot two_mics (CfgObject [''device_index'' \<mapsto> JInt 0]))
       [MainStep, DevicesChange [], RecOpen]))
     = display (the (run zero_resampler (boot two_mics (CfgObject [''device_index'' \<mapsto> JInt 0]))
       [MainStep, DevicesChange []]))
   \<and> rec_pc (the (run zero_resampler (boot two_mics (CfgObject [''device_index'' \<mapsto> JInt 0]))
       [MainStep, DevicesChange [], RecOpen])) = RecFailed"
proof -
  let ?b = "boot two_mics (CfgObject [''device_index'' \<mapsto> JInt 0])"
  let ?s = "the (run zero_resampler ?b [MainStep, DevicesChange []])"
  let ?s' = "the (run zero_resampler ?b [MainStep, DevicesChange [], RecOpen])"
  have run1: "run zero_resampler ?b [MainStep, DevicesChange []] = Some ?s"
    by (simp add: two_mics_def boot_def load_device_def set_input_device_def query_device_def
        start_threads_def list_devices_def py_trunc_def Let_def)
  have reach: "reachable zero_resampler ?s"
    using reachable_run [OF reachable.boot run1] .
  have step: "step zero_resampler ?s RecOpen = Some ?s'"
    by (simp add: two_mics_def boot_def load_device_def set_input_device_def query_device_def
        start_threads_def list_devices_def open_stream_def py_trunc_def Let_def)
  have failed: "rec_pc ?s' = RecFailed"
    by (simp add: two_mics_def boot_def load_device_def set_input_device_def query_device_def
        start_threads_def list_devices_def open_stream_def py_trunc_def Let_def)
  show ?thesis
    using open_failure_silent [OF reach step failed, of "[]" ?s'] failed by simp
qed

theorem zero_rate_kills_loop_witness:
  "\<exists>s'. step zero_resampler
         (demo_session\<lparr>loop_pc := Collecting (replicate 20 [0]),
                       sel := (sel demo_session)\<lparr>sample_rate := Some 0\<rparr>\<rparr>) LoopStep = Some s'
     \<and> loop_pc s' = LoopDead ZeroDivisionError"
  using zero_rate_kills_loop [of "demo_session\<lparr>loop_pc := Collecting (replicate 20 [0]),
      sel := (sel demo_session)\<lparr>sample_rate := Some 0\<rparr>\<rparr>" "replicate 20 [0]" zero_resampler]
  by (auto simp: demo_session_def window_len_def)

theorem requests_are_wav_witness:
  "\<exists>s b. reachable zero_resampler s \<and> b \<in> set (requests s)
     \<and> (\<exists>xs. wav_decode b = Some (1, 2, 16000, xs))"
proof -
  obtain es s body where "run zero_resampler (boot two_mics saved_mic) es = Some s"
    and "body \<in> set (requests s)"
    using run_to_first_request by blast
  moreover from this(1) have "reachable zero_resampler s"
    by (rule reachable_run [OF reachable.boot])
  ultimately show ?thesis
    using requests_are_wav [of zero_resampler s] by blast
qed

end
