(* ===== verification/Overlay.thy ===== *)
theory Overlay
  imports Dispatch
begin

text \<open>
  The overlay window \<open>TransparentWindow\<close> (lines 39-64 of
  \<open>src/live_transcribe.py\<close>): \<open>initUI\<close> places it at (100, 100), a mouse
  press stores the pointer's global position in the attribute \<open>oldPos\<close>,
  and each mouse move shifts the window by the pointer's displacement since
  the last stored position. \<open>oldPos\<close> exists only after the first press: a
  move before it raises \<open>AttributeError\<close>. Positions are integer pairs.
  The window also holds the text of its label (set to the waiting message by
  \<open>initUI\<close>) and whether it is shown; the flags, font, style sheet and size
  of lines 45-52 are presentation only and not modelled.
\<close>

type_synonym point = "int \<times> int"

definition padd :: "point \<Rightarrow> point \<Rightarrow> point" where
  "padd p q = (fst p + fst q, snd p + snd q)"

definition psub :: "point \<Rightarrow> point \<Rightarrow> point" where
  "psub p q = (fst p - fst q, snd p - snd q)"

record window =
  win_pos :: point
  old_pos :: "point option"
  label_text :: pystr
  visible :: bool

definition init_window :: window where
  "init_window = \<lparr>win_pos = (100, 100), old_pos = None, label_text = msg_waiting, visible = False\<rparr>"

text \<open>\<open>window.show()\<close> (line 265).\<close>

definition show_window :: "window \<Rightarrow> window" where
  "show_window w = w\<lparr>visible := True\<rparr>"

definition mouse_press :: "point \<Rightarrow> window \<Rightarrow> window" where
  "mouse_press p w = w\<lparr>old_pos := Some p\<rparr>"

definition mouse_move :: "point \<Rightarrow> window \<Rightarrow> py_error + window" where
  "mouse_move p w =
     (case old_pos w of
        None \<Rightarrow> Inl AttributeError
      | Some prev \<Rightarrow>
          (let delta = psub p prev in
           Inr (w\<lparr>win_pos := padd (win_pos w) delta, old_pos := Some p\<rparr>)))"

text \<open>A drag: the moves Qt delivers, in order, until the first exception.\<close>

fun drag :: "window \<Rightarrow> point list \<Rightarrow> py_error + window" where
  "drag w [] = Inr w"
| "drag w (p # ps) = (case mouse_move p w of Inl e \<Rightarrow> Inl e | Inr w' \<Rightarrow> drag w' ps)"

lemma drag_from:
  "old_pos w = Some prev \<Longrightarrow>
     drag w ps = Inr (w\<lparr>win_pos := padd (win_pos w) (psub (last (prev # ps)) prev),
                       old_pos := Some (last (prev # ps))\<rparr>)"
proof (induction ps arbitrary: w prev)
  case Nil
  then show ?case
    by (cases w) (simp add: padd_def psub_def)
next
  case (Cons p ps)
  have "drag w (p # ps) =
      drag (w\<lparr>win_pos := padd (win_pos w) (psub p prev), old_pos := Some p\<rparr>) ps"
    using Cons.prems by (simp add: mouse_move_def)
  also have "\<dots> = Inr (w\<lparr>win_pos := padd (padd (win_pos w) (psub p prev)) (psub (last (p # ps)) p),
                        old_pos := Some (last (p # ps))\<rparr>)"
    by (simp add: Cons.IH)
  finally show ?case
    by (simp add: padd_def psub_def)
qed

text \<open>
  C18: dragging is exact: after a press at \<open>p0\<close> and any sequence of moves,
  the window has moved by the displacement from \<open>p0\<close> to the last pointer
  position, whatever the path; a move before any press raises
  \<open>AttributeError\<close>.
\<close>

theorem drag_telescopes:
  "drag (mouse_press p0 w) ps =
     Inr (w\<lparr>win_pos := padd (win_pos w) (psub (last (p0 # ps)) p0), old_pos := Some (last (p0 # ps))\<rparr>)
   \<and> (old_pos w = None \<longrightarrow> ps \<noteq> [] \<longrightarrow> drag w ps = Inl AttributeError)"
proof -
  have "drag (mouse_press p0 w) ps =
      Inr ((mouse_press p0 w)\<lparr>win_pos := padd (win_pos w) (psub (last (p0 # ps)) p0),
                              old_pos := Some (last (p0 # ps))\<rparr>)"
    using drag_from [of "mouse_press p0 w" p0 ps] by (simp add: mouse_press_def)
  moreover have "old_pos w = None \<longrightarrow> ps \<noteq> [] \<longrightarrow> drag w ps = Inl AttributeError"
    by (cases ps) (simp_all add: mouse_move_def)
  ultimately show ?thesis
    by (simp add: mouse_press_def)
qed

theorem drag_telescopes_witness:
  "drag (mouse_press (5, 5) init_window) [(7, 6), (2, 9)] =
     Inr (init_window\<lparr>win_pos := padd (win_pos init_window) (psub (last [(5, 5), (7, 6), (2, 9)]) (5, 5)),
                      old_pos := Some (last [(5, 5), (7, 6), (2, 9)])\<rparr>)
   \<and> drag init_window [(1, 1)] = Inl AttributeError
   \<and> win_pos (init_window\<lparr>win_pos := padd (win_pos init_window) (psub (2, 9) (5, 5))\<rparr>) = (97, 104)"
  using drag_telescopes [of "(5, 5)" init_window "[(7, 6), (2, 9)]"]
    drag_telescopes [of "(5, 5)" init_window "[(1, 1)]"]
  by (simp add: init_window_def padd_def psub_def)

end
