(* ===== verification/Signals.thy ===== *)
theory Signals
  imports Overlay
begin

text \<open>
  The bridge from the worker threads to the overlay: the \<open>SignalHandler\<close>
  object with its \<open>update_text_signal\<close> (lines 32-36 of
  \<open>src/live_transcribe.py\<close>), \<open>update_text\<close> (lines 67-69), which the
  transcription loop and the tray call, and the slot \<open>update_label\<close>
  (lines 256-259), connected at line 262, which sets the label of the global
  \<open>window\<close>. The signal is emitted from threads other than the one that
  created the receiver, so Qt queues each emission as an event of the main
  thread; the event loop \<open>app.exec_()\<close> (line 284) delivers the queued
  emissions in order. \<open>posted\<close> is that queue.
\<close>

section \<open>State of the bridge\<close>

text \<open>
  \<open>signal_handler\<close> is the global of line 36 (\<open>None\<close> until line 249);
  \<open>connected\<close> records the \<open>connect\<close> of line 262; \<open>gwin\<close> is the global
  \<open>window\<close> the slot writes to.
\<close>

record gui =
  signal_handler :: bool
  connected :: bool
  gwin :: window
  posted :: "pystr list"

text \<open>
  \<open>update_text\<close>: nothing happens while \<open>signal_handler\<close> is \<open>None\<close>; an
  emission without a connected slot reaches no one; otherwise it is queued.
\<close>

definition update_text :: "pystr \<Rightarrow> gui \<Rightarrow> gui" where
  "update_text text g =
     (if signal_handler g then (if connected g then g\<lparr>posted := posted g @ [text]\<rparr> else g) else g)"

text \<open>
  The slot: \<open>window\<close> and its label always exist once it is connected, so
  the label takes the text; \<open>adjustSize\<close> resizes the window around it and
  does not move it.
\<close>

definition update_label :: "pystr \<Rightarrow> window \<Rightarrow> window" where
  "update_label text w = w\<lparr>label_text := text\<rparr>"

text \<open>The event loop delivers the oldest queued emission to the slot.\<close>

definition dispatch_posted :: "gui \<Rightarrow> gui" where
  "dispatch_posted g =
     (case posted g of
        [] \<Rightarrow> g
      | t # ts \<Rightarrow> g\<lparr>gwin := update_label t (gwin g), posted := ts\<rparr>)"

text \<open>
  Lines 246-265 of the entry point: the application, the signal handler and
  the window (its label showing the waiting text) are created, the slot is
  connected and the window shown.
\<close>

definition qt_setup :: gui where
  "qt_setup =
     (let g0 = \<lparr>signal_handler = False, connected = False, gwin = init_window, posted = []\<rparr>;
          g1 = g0\<lparr>signal_handler := True\<rparr>;
          g2 = g1\<lparr>connected := True\<rparr> in
      g2\<lparr>gwin := show_window (gwin g2)\<rparr>)"

text \<open>
  \<open>start_gui\<close> (lines 72-76) is never called. It would replace the global
  \<open>window\<close> by a new window that is never shown and post the waiting text,
  so every later update would go to the hidden window.
\<close>

definition start_gui :: "gui \<Rightarrow> gui" where
  "start_gui g = update_text msg_waiting (g\<lparr>gwin := init_window\<rparr>)"

text \<open>
  What the label shows once every queued emission has been delivered: the
  last text posted, or the label's text when none is queued.
\<close>

definition shown :: "gui \<Rightarrow> pystr" where
  "shown g = last (label_text (gwin g) # posted g)"

section \<open>Facts about the bridge\<close>

lemma shown_update_text [simp]:
  "signal_handler g \<Longrightarrow> connected g \<Longrightarrow> shown (update_text t g) = t"
  by (simp add: update_text_def shown_def)

lemma update_text_flags [simp]:
  "signal_handler (update_text t g) = signal_handler g"
  "connected (update_text t g) = connected g"
  "gwin (update_text t g) = gwin g"
  by (simp_all add: update_text_def)

lemma shown_dispatch_posted [simp]: "shown (dispatch_posted g) = shown g"
  by (simp add: dispatch_posted_def shown_def update_label_def split: list.splits)

lemma dispatch_posted_flags [simp]:
  "signal_handler (dispatch_posted g) = signal_handler g"
  "connected (dispatch_posted g) = connected g"
  "win_pos (gwin (dispatch_posted g)) = win_pos (gwin g)"
  "visible (gwin (dispatch_posted g)) = visible (gwin g)"
  by (simp_all add: dispatch_posted_def update_label_def split: list.splits)

lemma length_posted_dispatch [simp]:
  "length (posted (dispatch_posted g)) = length (posted g) - 1"
  by (simp add: dispatch_posted_def split: list.splits)

lemma qt_setup_simps [simp]:
  "signal_handler qt_setup" "connected qt_setup" "posted qt_setup = []"
  "shown qt_setup = msg_waiting" "visible (gwin qt_setup)"
  by (simp_all add: qt_setup_def shown_def init_window_def show_window_def)

end
