(* ===== verification/Gui.thy ===== *)
theory Gui
  imports Pipeline Signals
begin

text \<open>
  The pipeline composed with the overlay. \<open>Pipeline\<close> treats the overlay as
  the specification's display sink: \<open>display\<close> is the text last handed to
  \<open>update_text\<close>. Here each step of a worker thread also performs its
  \<open>update_text\<close> calls on the signal bridge of \<open>Signals\<close>, and the main
  thread's event loop delivers queued emissions to the label while it runs
  \<open>app.exec_()\<close>. The refinement lemma shows that the bridge implements
  the sink: once the queue is delivered, the label shows \<open>display\<close>.
\<close>

section \<open>The composed system\<close>

text \<open>
  The \<open>update_text\<close> calls a step of the pipeline makes: the answer's text
  or the error marker (lines 170-175), and the pause message of
  \<open>toggle_pause\<close> (line 190), which is reached only when the relabelling
  of line 189 succeeds.
\<close>

definition emits :: "sys \<Rightarrow> event \<Rightarrow> pystr list" where
  "emits s e =
     (case e of
        ApiReturn r \<Rightarrow> [handle_response r]
      | TogglePause \<Rightarrow>
          (case fst (toggle_pause s) of
             Inl e \<Rightarrow> []
           | Inr u \<Rightarrow> (let p = \<not> paused s in [if p then msg_paused else msg_resumed]))
      | _ \<Rightarrow> [])"

datatype gevent = Prog event | QtDeliver

text \<open>
  A step of a worker thread with its emissions, or the event loop
  delivering the oldest emission; the loop runs only in \<open>app.exec_()\<close>.
\<close>

definition gstep :: "resampler \<Rightarrow> sys \<times> gui \<Rightarrow> gevent \<Rightarrow> (sys \<times> gui) option" where
  "gstep rs sg ev =
     (case ev of
        Prog e \<Rightarrow>
          (case step rs (fst sg) e of
             None \<Rightarrow> None
           | Some s' \<Rightarrow> Some (s', fold update_text (emits (fst sg) e) (snd sg)))
      | QtDeliver \<Rightarrow>
          if main_pc (fst sg) = MainRunning \<and> posted (snd sg) \<noteq> []
          then Some (fst sg, dispatch_posted (snd sg)) else None)"

fun grun :: "resampler \<Rightarrow> sys \<times> gui \<Rightarrow> gevent list \<Rightarrow> (sys \<times> gui) option" where
  "grun rs sg [] = Some sg"
| "grun rs sg (ev # evs) = (case gstep rs sg ev of None \<Rightarrow> None | Some sg' \<Rightarrow> grun rs sg' evs)"

text \<open>The Qt objects are set up (lines 246-265) before the saved device is restored.\<close>

definition gboot :: "device_info list \<Rightarrow> cfg \<Rightarrow> sys \<times> gui" where
  "gboot ds c = (boot ds c, qt_setup)"

inductive greachable :: "resampler \<Rightarrow> sys \<times> gui \<Rightarrow> bool" for rs where
  boot: "greachable rs (gboot ds c)"
| step: "greachable rs sg \<Longrightarrow> gstep rs sg ev = Some sg' \<Longrightarrow> greachable rs sg'"

section \<open>The display palette\<close>

text \<open>
  The specification's \<open>PaletteOfDisplayStates\<close>, refined by the texts the
  code shows: waiting, a transcription, the cleared overlay, paused,
  resumed, and the error marker. A shown transcription is non-empty,
  stripped and not the filler.
\<close>

datatype display_state = Waiting | Listening pystr | Cleared | Paused | Resumed | ErrorShown

fun render :: "display_state \<Rightarrow> pystr" where
  "render Waiting = msg_waiting"
| "render (Listening t) = green_circle @ '' '' @ t"
| "render Cleared = []"
| "render Paused = msg_paused"
| "render Resumed = msg_resumed"
| "render ErrorShown = msg_api_error"

fun palette_ok :: "display_state \<Rightarrow> bool" where
  "palette_ok (Listening t) \<longleftrightarrow> t \<noteq> [] \<and> py_strip t = t \<and> py_lower t \<noteq> ''you''"
| "palette_ok d \<longleftrightarrow> True"

text \<open>
  The invariant of the bridge: the signal handler exists and is connected,
  and the label will show the pipeline's display once the queue is
  delivered.
\<close>

definition bridge_inv :: "sys \<times> gui \<Rightarrow> bool" where
  "bridge_inv sg \<longleftrightarrow> signal_handler (snd sg) \<and> connected (snd sg) \<and> shown (snd sg) = display (fst sg)"

section \<open>Facts about the composition\<close>

lemma shown_fold_update_text:
  "signal_handler g \<Longrightarrow> connected g \<Longrightarrow> shown (fold update_text ts g) = last (shown g # ts)"
  by (induction ts arbitrary: g) simp_all

lemma fold_update_text_flags [simp]:
  "signal_handler (fold update_text ts g) = signal_handler g"
  "connected (fold update_text ts g) = connected g"
  "gwin (fold update_text ts g) = gwin g"
  by (induction ts arbitrary: g) simp_all

lemma loop_step_view:
  "loop_step rs s = Some s' \<Longrightarrow>
     display s' = display s \<and> paused s' = paused s \<and> pause_label s' = pause_label s"
  by (erule loop_step_cases) simp_all

text \<open>
  What a step does to what the user sees: the display becomes the last text
  the step emitted, the menu entry's label never changes, and only
  \<open>TogglePause\<close> changes the flag.
\<close>

lemma step_view:
  assumes "step rs s e = Some s'"
  shows "display s' = last (display s # emits s e) \<and> pause_label s' = pause_label s
     \<and> (e \<noteq> TogglePause \<longrightarrow> paused s' = paused s)"
  using assms
proof (cases e)
  case LoopStep
  then show ?thesis
    using assms loop_step_view [of rs s s'] by (simp add: emits_def split: if_splits)
next
  case TogglePause
  then show ?thesis
    using assms by (auto simp: emits_def toggle_pause_def menu_item_set_text_def Let_def split: if_splits)
next
  case (ApiReturn r)
  then show ?thesis
    using assms by (auto simp: emits_def split: loop_pc.splits if_splits)
qed (auto simp: emits_def split: rec_pc.splits main_pc.splits if_splits)

lemma boot_view:
  "display (boot ds c) = msg_waiting \<and> \<not> paused (boot ds c) \<and> pause_label (boot ds c) = ''Pause''"
  by (simp add: boot_def start_threads_def Let_def split: sum.splits option.splits prod.splits)

lemma bridge_inv_gstep:
  assumes "bridge_inv sg" and "gstep rs sg ev = Some sg'"
  shows "bridge_inv sg' \<and> (fst sg' = fst sg \<or> (\<exists>e. step rs (fst sg) e = Some (fst sg')))"
proof (cases ev)
  case (Prog e)
  then obtain s' where s': "step rs (fst sg) e = Some s'"
    and sg': "sg' = (s', fold update_text (emits (fst sg) e) (snd sg))"
    using assms(2) by (auto simp: gstep_def split: option.splits)
  have "display s' = last (display (fst sg) # emits (fst sg) e)"
    using step_view [OF s'] by simp
  with assms(1) s' sg' show ?thesis
    by (auto simp: bridge_inv_def shown_fold_update_text)
next
  case QtDeliver
  with assms show ?thesis
    by (auto simp: gstep_def bridge_inv_def split: if_splits)
qed

lemma greachable_bridge_inv:
  "greachable rs sg \<Longrightarrow> reachable rs (fst sg) \<and> bridge_inv sg"
proof (induction rule: greachable.induct)
  case (boot ds c)
  then show ?case
    by (simp add: gboot_def bridge_inv_def boot_view reachable.boot)
next
  case (step sg ev sg')
  then show ?case
    using bridge_inv_gstep [of sg rs ev sg'] by (auto intro: reachable.step)
qed

lemma grun_deliver:
  assumes "main_pc s = MainRunning"
  shows "\<exists>g'. grun rs (s, g) (replicate (length (posted g)) QtDeliver) = Some (s, g')
     \<and> posted g' = [] \<and> shown g' = shown g \<and> signal_handler g' = signal_handler g
     \<and> connected g' = connected g"
  using assms
proof (induction "length (posted g)" arbitrary: g)
  case 0
  then show ?case by simp
next
  case (Suc n)
  then have ne: "posted g \<noteq> []" and n: "n = length (posted (dispatch_posted g))"
    by auto
  obtain g' where g': "grun rs (s, dispatch_posted g) (replicate n QtDeliver) = Some (s, g')"
    "posted g' = []" "shown g' = shown g" "signal_handler g' = signal_handler g"
    "connected g' = connected g"
    using Suc.hyps(1) [OF n Suc.prems] unfolding shown_dispatch_posted dispatch_posted_flags n [symmetric]
    by blast
  have "grun rs (s, g) (replicate (length (posted g)) QtDeliver) = Some (s, g')"
    using g'(1) ne Suc.prems Suc.hyps(2) by (simp add: gstep_def flip: Suc.hyps(2))
  with g' show ?case
    by blast
qed

lemma grun_append:
  "grun rs sg (xs @ ys) = (case grun rs sg xs of None \<Rightarrow> None | Some sg' \<Rightarrow> grun rs sg' ys)"
  by (induction xs arbitrary: sg) (simp_all split: option.splits)

lemma handle_response_palette:
  "\<exists>d. palette_ok d \<and> handle_response r = render d"
proof (cases r)
  case ApiException
  then show ?thesis
    by (intro exI [of _ ErrorShown]) (simp add: handle_response_def)
next
  case (ApiText t)
  show ?thesis
  proof (cases "py_strip t \<noteq> [] \<and> py_lower (py_strip t) \<noteq> ''you''")
    case True
    with ApiText show ?thesis
      by (intro exI [of _ "Listening (py_strip t)"]) (simp add: handle_response_def Let_def)
  next
    case False
    with ApiText show ?thesis
      by (intro exI [of _ Cleared]) (auto simp: handle_response_def Let_def)
  qed
qed

lemma emits_palette:
  assumes "x \<in> set (emits s e)"
  shows "\<exists>d. palette_ok d \<and> x = render d"
proof (cases e)
  case (ApiReturn r)
  with assms show ?thesis
    using handle_response_palette [of r] by (simp add: emits_def)
qed (use assms in \<open>simp_all add: emits_def toggle_pause_def menu_item_set_text_def Let_def\<close>)

lemma greachable_grun:
  "greachable rs sg \<Longrightarrow> grun rs sg evs = Some sg' \<Longrightarrow> greachable rs sg'"
proof (induction evs arbitrary: sg)
  case Nil
  then show ?case by simp
next
  case (Cons ev evs)
  then show ?case
    by (auto intro: greachable.step split: option.splits)
qed

lemma handle_response_not_paused: "handle_response r \<noteq> msg_paused"
  by (simp add: handle_response_def Let_def msg_paused_def pause_sign_def green_circle_def
      msg_api_error_def red_circle_def split: api_result.splits)

lemma emits_not_paused: "x \<in> set (emits s e) \<Longrightarrow> x \<noteq> msg_paused"
  using handle_response_not_paused
  by (cases e) (auto simp: emits_def toggle_pause_def menu_item_set_text_def Let_def)

text \<open>A run of the pipeline without answers makes no emission.\<close>

lemma grun_silent:
  assumes "run rs s es = Some s'" and "\<forall>e \<in> set es. \<forall>r. e \<noteq> ApiReturn r"
  shows "grun rs (s, g) (map Prog es) = Some (s', g)"
  using assms
proof (induction es arbitrary: s)
  case Nil
  then show ?case by simp
next
  case (Cons e es)
  then obtain s1 where s1: "step rs s e = Some s1" and rest: "run rs s1 es = Some s'"
    by (auto split: option.splits)
  have "emits s e = []"
    using Cons.prems(2) by (cases e) (auto simp: emits_def toggle_pause_def menu_item_set_text_def Let_def)
  with s1 have "gstep rs (s, g) (Prog e) = Some (s1, g)"
    by (simp add: gstep_def)
  with Cons.IH [OF rest] Cons.prems(2) show ?case
    by simp
qed

text \<open>
  A state of the composed system with an answer queued for the label: the
  pipeline of \<open>run_to_first_request\<close> receives the transcription "hi".
\<close>

lemma answer_queued:
  "\<exists>s g. greachable zero_resampler (s, g) \<and> main_pc s = MainRunning
     \<and> posted g = [handle_response (ApiText ''hi'')] \<and> display s = handle_response (ApiText ''hi'')
     \<and> label_text (gwin g) = msg_waiting"
proof -
  obtain es s body where run: "run zero_resampler (boot two_mics saved_mic) es = Some s"
    and s: "loop_pc s = Requesting body" "main_pc s = MainRunning"
    and silent: "\<forall>e \<in> set es. \<forall>r. e \<noteq> ApiReturn r"
    using run_to_first_request by blast
  let ?s' = "s\<lparr>display := handle_response (ApiText ''hi''), loop_pc := LoopTop\<rparr>"
  let ?g' = "update_text (handle_response (ApiText ''hi'')) qt_setup"
  have "grun zero_resampler (gboot two_mics saved_mic) (map Prog es @ [Prog (ApiReturn (ApiText ''hi''))])
      = Some (?s', ?g')"
    using grun_silent [OF run silent, of qt_setup] s
    by (simp add: gboot_def grun_append gstep_def emits_def)
  then have "greachable zero_resampler (?s', ?g')"
    by (rule greachable_grun [OF greachable.boot])
  moreover have "posted ?g' = [handle_response (ApiText ''hi'')]" "label_text (gwin ?g') = msg_waiting"
    by (simp_all add: update_text_def qt_setup_def show_window_def init_window_def)
  ultimately show ?thesis
    using s by (intro exI [of _ ?s'] exI [of _ ?g']) simp
qed

section \<open>What the overlay shows\<close>

text \<open>
  C28: The signal bridge refines the display sink: in every state the composed
  system reaches, the pipeline's state is one the pipeline alone reaches,
  and the label, once the queued emissions are delivered, shows the
  pipeline's \<open>display\<close>: updates are applied in the order they were
  made and the last one wins.
\<close>

theorem label_refines_display:
  assumes "greachable rs (s, g)"
  shows "reachable rs s \<and> last (label_text (gwin g) # posted g) = display s"
  using greachable_bridge_inv [OF assms] by (simp add: bridge_inv_def shown_def)

text \<open>
  C29: While the event loop runs, the label catches up: delivering as many
  events as are queued empties the queue and leaves the label showing the
  pipeline's \<open>display\<close>.
\<close>

theorem label_catches_up:
  assumes "greachable rs (s, g)" and "main_pc s = MainRunning"
  shows "\<exists>g'. grun rs (s, g) (replicate (length (posted g)) QtDeliver) = Some (s, g')
     \<and> posted g' = [] \<and> label_text (gwin g') = display s"
proof -
  obtain g' where g': "grun rs (s, g) (replicate (length (posted g)) QtDeliver) = Some (s, g')"
    "posted g' = []" "shown g' = shown g"
    using grun_deliver [OF assms(2)] by blast
  moreover have "shown g = display s"
    using greachable_bridge_inv [OF assms(1)] by (simp add: bridge_inv_def)
  ultimately show ?thesis
    by (auto simp: shown_def)
qed

text \<open>
  C30: Every text the overlay is asked to show is one of the specification's
  display states: waiting, a transcription (non-empty, stripped and not the
  filler), the cleared overlay, paused, resumed, or the error marker.
\<close>

theorem display_palette:
  assumes "reachable rs s"
  shows "\<exists>d. palette_ok d \<and> display s = render d"
  using assms
proof (induction rule: reachable.induct)
  case (boot ds c)
  then show ?case
    by (intro exI [of _ Waiting]) (simp add: boot_view)
next
  case (step s e s')
  have "display s' = last (display s # emits s e)"
    using step_view [OF step.hyps(2)] by simp
  then show ?case
    using step.IH emits_palette [of _ s e] by (cases "emits s e" rule: rev_cases) auto
qed

text \<open>
  C31: the pause state is never shown. The relabelling of line 189 raises
  before \<open>update_text\<close> is reached, so in every reachable state the tray
  entry still reads "Pause" and the overlay does not show the Paused
  message, whatever the flag.
\<close>

theorem pause_never_shown:
  assumes "reachable rs s"
  shows "pause_label s = ''Pause'' \<and> display s \<noteq> msg_paused"
  using assms
proof (induction rule: reachable.induct)
  case (boot ds c)
  then show ?case
    by (simp add: boot_view msg_waiting_def yellow_circle_def msg_paused_def pause_sign_def)
next
  case (step s e s')
  have "display s' = last (display s # emits s e)" "pause_label s' = pause_label s"
    using step_view [OF step.hyps(2)] by simp_all
  then show ?case
    using step.IH emits_not_paused [of _ s e] by (cases "emits s e" rule: rev_cases) auto
qed

section \<open>Witnesses\<close>

theorem label_refines_display_witness:
  "\<exists>s g. greachable zero_resampler (s, g) \<and> label_text (gwin g) \<noteq> display s
     \<and> reachable zero_resampler s \<and> last (label_text (gwin g) # posted g) = display s"
proof -
  obtain s g where sg: "greachable zero_resampler (s, g)" "posted g = [handle_response (ApiText ''hi'')]"
    "display s = handle_response (ApiText ''hi'')" "label_text (gwin g) = msg_waiting"
    using answer_queued by blast
  have "label_text (gwin g) \<noteq> display s"
    using sg(3,4) by (simp add: handle_response_def Let_def msg_waiting_def yellow_circle_def
        green_circle_def)
  with sg(1) show ?thesis
    using label_refines_display [OF sg(1)] by blast
qed

theorem label_catches_up_witness:
  "\<exists>s g g'. greachable zero_resampler (s, g) \<and> main_pc s = MainRunning \<and> posted g \<noteq> []
     \<and> grun zero_resampler (s, g) (replicate (length (posted g)) QtDeliver) = Some (s, g')
     \<and> posted g' = [] \<and> label_text (gwin g') = display s"
proof -
  obtain s g where sg: "greachable zero_resampler (s, g)" "main_pc s = MainRunning"
    "posted g = [handle_response (ApiText ''hi'')]"
    using answer_queued by blast
  obtain g' where "grun zero_resampler (s, g) (replicate (length (posted g)) QtDeliver) = Some (s, g')"
    "posted g' = []" "label_text (gwin g') = display s"
    using label_catches_up [OF sg(1,2)] by blast
  moreover have "posted g \<noteq> []"
    using sg(3) by simp
  ultimately show ?thesis
    using sg(1,2) by blast
qed

theorem display_palette_witness:
  "\<exists>d. palette_ok d \<and> display (boot two_mics CfgAbsent) = render d"
  by (rule display_palette [of zero_resampler]) (rule reachable.boot)

theorem pause_never_shown_witness:
  "paused (snd (toggle_pause (boot two_mics CfgAbsent)))
   \<and> pause_label (snd (toggle_pause (boot two_mics CfgAbsent))) = ''Pause''
   \<and> display (snd (toggle_pause (boot two_mics CfgAbsent))) \<noteq> msg_paused"
proof -
  have "step zero_resampler (boot two_mics CfgAbsent) TogglePause = Some (snd (toggle_pause (boot two_mics CfgAbsent)))"
    by (simp add: boot_def load_device_def start_threads_def tray_running_def)
  then have "reachable zero_resampler (snd (toggle_pause (boot two_mics CfgAbsent)))"
    by (rule reachable.step [OF reachable.boot])
  moreover have "paused (snd (toggle_pause (boot two_mics CfgAbsent)))"
    by (simp add: boot_def load_device_def start_threads_def toggle_pause_def menu_item_set_text_def Let_def)
  ultimately show ?thesis
    using pause_never_shown by blast
qed

end
