(* ===== verification/Spec2Isabelle.thy ===== *)
theory Spec2Isabelle
  imports Gui
begin

text \<open>
  \<^bold>\<open>A verification model of live-transcribe.\<close>
  The program is the single file \<open>src/live_transcribe.py\<close>. It captures
  microphone audio with \<open>sounddevice\<close>, cuts it into windows of twenty
  4000-frame blocks, resamples each window to 16 kHz, sends it as a WAV file
  to the OpenAI audio endpoint and shows the answer on a Qt overlay. A tray
  icon selects the input device, pauses and quits. Four threads share
  module globals: the driver's callback thread, the transcription loop, the
  tray thread and the main thread (Qt). They communicate through the queue
  \<open>audio_q\<close>, the globals \<open>paused\<close>, \<open>SAMPLE_RATE\<close>,
  \<open>input_device_index\<close> and \<open>selected_event\<close>, and the overlay's label.

  \<^bold>\<open>Theories and what they model.\<close>
  \<^item> \<open>Prelude\<close>: int16 samples (\<^typ>\<open>16 word\<close>), bytes, blocks, Python
    strings as UTF-8 byte strings, the exceptions as the datatype
    \<open>py_error\<close>, Python's \<open>int()\<close> of a float (\<open>py_trunc\<close>), and lists of
    fixed-size blocks (\<open>uniform\<close>).
  \<^item> \<open>AudioBuffer\<close>: \<open>audio_q\<close> (\<open>queue.Queue\<close>, modelled from its
    contract as a list: \<open>q_put\<close>, and \<open>q_get\<close> answering \<open>None\<close> while it
    would block), \<open>audio_callback\<close> (lines 120-123) and the window read
    \<open>get_n\<close> (line 147). The spec's \<open>popExactly\<close> is \<open>pop_exactly\<close>.
  \<^item> \<open>Resample\<close>: \<open>resample_audio\<close> (lines 115-117). Python's
    \<open>round\<close> is \<open>py_round_div\<close>, the cast is \<open>astype_int16\<close>, and
    \<open>scipy.signal.resample\<close> is a parameter of type \<open>resampler\<close> whose one
    relied-on property, the output length, is \<open>resampler_ok\<close>.
  \<^item> \<open>Wav\<close>: the request body of lines 153-160, the 44-byte header of the
    \<open>wave\<close> module and little-endian samples (\<open>wav_encode\<close>), with a
    reader \<open>wav_decode\<close> as the reference.
  \<^item> \<open>Dispatch\<close>: the answer handling of lines 162-175. \<open>str.strip\<close> is
    \<open>py_strip\<close> over Python's whitespace set, \<open>str.lower\<close> is
    \<open>py_lower\<close>, and \<open>handle_response\<close> gives the text the overlay shows
    for an answer or an exception.
  \<^item> \<open>Config\<close>: \<open>save_device\<close>, \<open>load_device\<close> (lines 93-102),
    \<open>create_initial_files\<close> (lines 209-235) and the credential lines
    240-243 (\<open>startup_client\<close>).
  \<^item> \<open>Devices\<close>: \<open>list_devices\<close> (lines 80-90), the device query and
    \<open>set_input_device\<close> (lines 105-112) on the record \<open>selection\<close> of the
    globals it writes.
  \<^item> \<open>Pipeline\<close>: the running program. The record \<open>sys\<close> holds the
    globals, the queue, the device table, the tray menu, the overlay text and
    one program counter per thread: \<open>main_pc\<close> (lines 268-284),
    \<open>rec_pc\<close> (\<open>record_audio\<close>, lines 126-136) and \<open>loop_pc\<close>
    (\<open>transcribe_loop\<close>, lines 140-175). \<open>boot\<close> runs the entry point up
    to the start of the threads. \<open>step\<close> makes one atomic step for one
    \<open>event\<close>: a driver callback, the stream opening, a step of the main
    thread, a tray action (\<open>set_input_device\<close>, \<open>toggle_pause\<close>, Quit), a
    change of the device table, a step of the loop (\<open>loop_step\<close>), or the
    answer of the service. \<open>run\<close> folds \<open>step\<close> over a list of events,
    and \<open>reachable\<close> is the set of states reachable from some start. Three
    ghost fields record what the program does not keep: \<open>pushed\<close> (every
    block put), \<open>windows\<close> (every window taken) and \<open>requests\<close> (every
    body sent).
  \<^item> \<open>Overlay\<close>: \<open>TransparentWindow\<close> (lines 39-64): position,
    drag handlers, the label's text and whether the window is shown.
  \<^item> \<open>Signals\<close>: the Qt signal bridge. The record \<open>gui\<close> holds
    \<open>signal_handler\<close>, the connection of line 262, the global \<open>window\<close>
    and the queue \<open>posted\<close> of emissions not yet delivered. The
    operations are \<open>update_text\<close> (lines 67-69), the slot
    \<open>update_label\<close> (lines 256-259), delivery of the oldest emission
    (\<open>dispatch_posted\<close>), the setup of lines 245-265 (\<open>qt_setup\<close>)
    and the never-called \<open>start_gui\<close>.
  \<^item> \<open>Gui\<close>: the pipeline composed with the bridge. \<open>gstep\<close> performs
    each pipeline step together with its \<open>update_text\<close> calls
    (\<open>emits\<close>), or one delivery by the Qt loop while the main thread is
    in \<open>app.exec_()\<close>. \<open>greachable\<close> is the set of states reachable from
    \<open>gboot\<close>. The datatype \<open>display_state\<close> is the specification's
    palette, with \<open>render\<close> giving the text the code shows for each state.

  \<^bold>\<open>What the lemmas show.\<close>
  Queue: the window read refines \<open>popExactly\<close>, and FIFO holds after
  pushes (C2, C3). System: no block is lost, duplicated or reordered between
  the callback and the requests in any reachable state (C1). With no device
  nothing is captured or sent (C9). After a failed request the next window
  is still taken and sent (C6, liveness by an explicit run). Pausing keeps
  the buffer and stops new windows (C7), but not the window in progress,
  which is still sent (C21). The open stream never changes (C8).
  Resampling: the length is the half-even rounding of
  \<open>len * 16000 / rate\<close> (C4, C16). The int16 cast wraps, and it truncates
  in-range values toward zero (C15). The reference scenario gives 29025
  samples (C17). The WAV body is lossless (C14). Answers: filler clearing
  (C5), and errors look unlike any success (C20). \<open>py_strip\<close> is
  specified completely (C22). Devices: the menu is exact (C12), a listed
  selection succeeds (C10), and a failing query half-writes the selection
  (C11). Configuration: the save/load round trip (C13), the empty key is not
  fatal (C19), and the first-run step is idempotent (C26). Overlay: dragging
  telescopes (C18). Every request body sent decodes as a 16 kHz mono WAV
  file (C27). Several error paths end parts of the program for good:
  \<^item> a saved index of a vanished device stops every start (C23);
  \<^item> a failed stream opening is silent and captures nothing (C24);
  \<^item> a zero sample rate ends the transcription thread (C25).
  Display: the signal bridge refines the pipeline's display sink (C28), and
  while the event loop runs the label catches up with the display (C29).
  Every display text is in the palette (C30, a type invariant). The pause
  state is never shown (C31): pystray's menu items are immutable, so
  \<open>toggle_pause\<close> raises at its relabelling (line 189) after flipping the
  flag. The menu entry keeps reading "Pause" and the overlay never shows
  "Paused", against the specification's "the display reflects the most
  recent state".

  \<^bold>\<open>Bounds and choices.\<close>
  The window is twenty blocks of 4000 frames (\<open>window_len\<close>,
  \<open>blocksize\<close>) and the target rate is 16000, as in the code. Python's
  float quotient in \<open>round(len * 16000 / orig_sr)\<close> is modelled exactly:
  for integers far below \<open>2^53\<close> the float division cannot cross a
  rounding boundary. Hence every window of 80000 samples resampled from a
  positive rate has at most \<open>1280000001\<close> samples, which fits the 32-bit
  RIFF length fields (\<open>build_request_ok\<close>). No fuel is needed: every loop
  of the code that terminates is structural recursion (\<open>get_n\<close>,
  \<open>list_devices_from\<close>, \<open>drag\<close>) or has a measure (\<open>strip_lead\<close>).
  The
  endless loops (\<open>while True\<close> of the transcription loop, the wait on
  \<open>selected_event\<close>, \<open>threading.Event().wait()\<close>) are the step relation.
  Their progress is stated by explicit runs, and a blocked \<open>get\<close> is a step
  that is not enabled.

  \<^bold>\<open>Not modelled.\<close>
  Qt rendering, fonts and the tray image. The audio driver, which appears
  only as callback events, the stream-opening step and the device table.
  The transcription service, which appears only as its answer. The numeric
  values of scipy's Fourier resampler. Console output. The tray image
  (\<open>create_icon_image\<close>), which is PIL drawing only. \<open>adjustSize\<close>
  changes only the window's size, which is not modelled. \<open>app.exec_()\<close>
  is modelled only through its deliveries (\<open>QtDeliver\<close>), one event at a
  time, for as long as the main thread runs it. In \<open>Pipeline\<close> the
  display is a last-write-wins field; \<open>Gui\<close> shows that the queued Qt
  delivery implements it. pystray's immutable \<open>MenuItem\<close> is
  \<open>menu_item_set_text\<close>, which always raises. An exception in a tray
  action is logged by pystray's handler and the tray keeps running; if the
  tray thread ended instead, the real program has fewer behaviours and the
  safety results still hold. The transcription loop reads
  \<open>SAMPLE_RATE\<close> twice (lines 150-151); the model reads it once per
  window, so a device switch between the two reads is not modelled. The
  configuration's \<open>device_index\<close> is null or an integer; other value types
  (a string would select a device by name) are not modelled. The int16 wrap of
  \<open>astype\<close> is numpy's float-to-int16 cast on x86, which is undefined in C
  for out-of-range values. It converts through 32 bits, so the wrap holds
  for magnitudes below \<open>2^31\<close>, far above what a resampled window of
  int16 samples reaches in practice.
  Non-ASCII letters are not lower-cased, which does not change the
  comparison with "you": only the Kelvin sign lower-cases to ASCII, to k.
\<close>

section \<open>The reference scenario end to end\<close>

text \<open>
  C17: the specification's scenario through the code's own path: twenty
  blocks of 4000 samples make one chunk of 80000 samples; captured at
  44100 Hz it is resampled to \<open>round(80000 * 16000 / 44100) = 29025\<close>
  samples, and the request body is the 44-byte header and 2 bytes per sample.
\<close>

theorem window_resample_scenario:
  assumes "resampler_ok rs" and "uniform blocksize fs" and "length fs = window_len"
  shows "length (concat fs) = 80000
     \<and> (\<exists>ys. resample_audio rs (concat fs) 44100 target_rate = Inr ys \<and> length ys = 29025)
     \<and> (\<exists>body. build_request rs (Some 44100) fs = Inr body \<and> length body = 44 + 2 * 29025)"
proof -
  have len: "length (concat fs) = 80000"
    using assms(2,3) by (simp add: blocksize_def window_len_def)
  have round: "py_round_div (int (length (concat fs)) * target_rate) 44100 = 29025"
    using len by (simp add: target_rate_def py_round_div_def)
  let ?ys = "map astype_int16 (rs (map sint (concat fs)) 29025)"
  have res: "resample_audio rs (concat fs) 44100 target_rate = Inr ?ys"
    using resample_audio_Inr [of 44100 target_rate rs "concat fs"] round
    by (simp add: target_rate_def)
  have ys: "length ?ys = 29025"
    using assms(1) by (simp add: resampler_ok_def)
  have "build_request rs (Some 44100) fs = wav_encode ?ys"
    using res by (simp add: build_request_def target_rate_def)
  then have "build_request rs (Some 44100) fs =
      Inr (wav_header 1 2 16000 (2 * length ?ys) @ tobytes ?ys)"
    using ys wav_encode_Inr [of ?ys] by simp
  then show ?thesis
    using len res ys by simp
qed

theorem window_resample_scenario_witness:
  "length (concat (replicate 20 (replicate 4000 (0::int16)))) = 80000
   \<and> (\<exists>ys. resample_audio zero_resampler (concat (replicate 20 (replicate 4000 0))) 44100 target_rate
           = Inr ys \<and> length ys = 29025)
   \<and> (\<exists>body. build_request zero_resampler (Some 44100) (replicate 20 (replicate 4000 0)) = Inr body
           \<and> length body = 44 + 2 * 29025)"
  by (rule window_resample_scenario)
     (simp_all add: resampler_ok_def zero_resampler_def uniform_def blocksize_def window_len_def)

end
